theory Spec2Isabelle
  imports Main "HOL-Library.Word" "HOL-Library.Sublist" "HOL-Library.AList"
begin

unbundle bit_operations_syntax

section \<open>Shared vocabulary of the engine\<close>

text \<open>
  Failures of the C++ code are values: \<open>AD_CORRECTNESS_CHECK\<close> and
  \<open>AD_CONTRACT_CHECK\<close> throw, \<open>std::runtime_error\<close> carries its message, and
  \<open>std::string::substr\<close> throws \<open>std::out_of_range\<close>.
\<close>

datatype error =
    CorrectnessCheckFailed
  | ContractCheckFailed
  | RuntimeError string
  | OutOfRange

text \<open>\<open>Variable\<close> (parser/data/Variable.cpp) wraps the name, question mark included.\<close>

datatype Variable = Variable (name: string)

text \<open>
  \<open>TripleComponent\<close> is a variant; the alternatives that the code below inspects are
  the variable and the fixed terms (IRIs and literals).
\<close>

datatype TripleComponent =
    TCVariable Variable
  | TCIri string
  | TCLiteral string

fun isVariableTC :: "TripleComponent \<Rightarrow> bool" where
  "isVariableTC (TCVariable v) = True"
| "isVariableTC (TCIri i) = False"
| "isVariableTC (TCLiteral l) = False"

fun getVariable :: "TripleComponent \<Rightarrow> Variable option" where
  "getVariable (TCVariable v) = Some v"
| "getVariable (TCIri i) = None"
| "getVariable (TCLiteral l) = None"

section \<open>TransitivePathBase (engine/TransitivePathBase.cpp)\<close>

datatype Permutation = PSO | POS | SPO | SOP | OPS | OSP

text \<open>
  A member \<open>x_\<close> or \<open>_x\<close> of a C++ class is the field \<open>x'\<close> of the
  record that models it (a name can neither start nor end with an underscore here).

  Execution trees: \<open>Operation\<close> is a tree handed in by the caller, the other
  constructors are the operators that \<open>makeEmptyPathSide\<close> and
  \<open>joinWithIndexScan\<close> build. The last field of \<open>IndexScan\<close> holds the
  variables chosen by \<open>setSelectedVariablesForSubquery\<close>.
\<close>

datatype ('op, 'g) QueryExecutionTree =
    Operation 'op
  | IndexScan Permutation TripleComponent TripleComponent TripleComponent 'g
      "Variable list option"
  | ValuesOp "Variable list" "TripleComponent list list"
  | JoinOp "('op, 'g) QueryExecutionTree" "('op, 'g) QueryExecutionTree" nat nat
  | UnionOp "('op, 'g) QueryExecutionTree" "('op, 'g) QueryExecutionTree"
  | DistinctOp "('op, 'g) QueryExecutionTree" "nat list"

record ('op, 'g) TransitivePathSide =
  treeAndCol' :: "(('op, 'g) QueryExecutionTree \<times> nat) option"
  outputCol' :: nat
  value' :: TripleComponent

text \<open>
  Modelled from the spec: \<open>TransitivePathSide\<close> is declared in a header that is not
  among the sources. Section 4.3 speaks of a side that is a bound variable, a free
  variable or a fixed term: a side is a variable when its value is one, and bound
  when a subtree is attached to it.
\<close>

definition isVariable :: "('op, 'g) TransitivePathSide \<Rightarrow> bool" where
  "isVariable side = isVariableTC (value' side)"

definition isBoundVariable :: "('op, 'g) TransitivePathSide \<Rightarrow> bool" where
  "isBoundVariable side = (treeAndCol' side \<noteq> None)"

definition isUnboundVariable :: "('op, 'g) TransitivePathSide \<Rightarrow> bool" where
  "isUnboundVariable side = (isVariable side \<and> \<not> isBoundVariable side)"

datatype UndefStatus = AlwaysDefined | PossiblyUndefined

record ('op, 'g) TransitivePathBase =
  subtree' :: "('op, 'g) QueryExecutionTree"
  lhs' :: "('op, 'g) TransitivePathSide"
  rhs' :: "('op, 'g) TransitivePathSide"
  minDist' :: nat
  maxDist' :: nat
  activeGraphs' :: 'g
  variableColumns' :: "Variable \<rightharpoonup> (nat \<times> UndefStatus)"
  boundVariableIsForEmptyPath' :: bool

definition makeInternalVariable :: "string \<Rightarrow> Variable" where
  "makeInternalVariable s = Variable (''?internal_property_path_variable_'' @ s)"

fun selectXVariable ::
  "Variable \<Rightarrow> ('op, 'g) QueryExecutionTree \<Rightarrow> ('op, 'g) QueryExecutionTree" where
  "selectXVariable x (IndexScan perm s p ob g sel) = IndexScan perm s p ob g (Some [x])"
| "selectXVariable x t = t"

definition joinWithIndexScan ::
  "'g \<Rightarrow> TripleComponent \<Rightarrow> ('op, 'g) QueryExecutionTree" where
  "joinWithIndexScan activeGraphs tripleComponent =
     (let x = makeInternalVariable ''x'';
          y = makeInternalVariable ''y'';
          z = makeInternalVariable ''z'';
          joinWithValues = (\<lambda>executionTree.
             JoinOp executionTree (ValuesOp [x] [[tripleComponent]]) 0 0);
          allValues = UnionOp
            (joinWithValues (selectXVariable x
               (IndexScan SPO (TCVariable x) (TCVariable y) (TCVariable z) activeGraphs None)))
            (joinWithValues (selectXVariable x
               (IndexScan OPS (TCVariable z) (TCVariable y) (TCVariable x) activeGraphs None)))
      in DistinctOp allValues [0])"

definition makeEmptyPathSide ::
  "'g \<Rightarrow> Variable option \<Rightarrow> ('op, 'g) QueryExecutionTree" where
  "makeEmptyPathSide activeGraphs variable =
     (let x = (case variable of Some v \<Rightarrow> v | None \<Rightarrow> makeInternalVariable ''x'');
          y = makeInternalVariable ''y'';
          z = makeInternalVariable ''z'';
          allValues = UnionOp
            (selectXVariable x
               (IndexScan SPO (TCVariable x) (TCVariable y) (TCVariable z) activeGraphs None))
            (selectXVariable x
               (IndexScan OPS (TCVariable z) (TCVariable y) (TCVariable x) activeGraphs None))
      in DistinctOp allValues [0])"

text \<open>
  \<open>decideDirection\<close> returns references to the starting and the target side; the
  model returns which side starts.
\<close>

datatype StartingSide = StartLeft | StartRight

definition decideDirection ::
  "('op, 'g) TransitivePathSide \<Rightarrow> ('op, 'g) TransitivePathSide \<Rightarrow> StartingSide" where
  "decideDirection lhs rhs =
     (if isBoundVariable lhs then StartLeft
      else if isBoundVariable rhs \<or> \<not> isVariable rhs then StartRight
      else StartLeft)"

definition setVariableColumn ::
  "('op, 'g) TransitivePathSide \<Rightarrow> nat \<Rightarrow> (Variable \<rightharpoonup> (nat \<times> UndefStatus))
     \<Rightarrow> (Variable \<rightharpoonup> (nat \<times> UndefStatus))" where
  "setVariableColumn side col m =
     (case getVariable (value' side) of
        Some v \<Rightarrow> m(v \<mapsto> (col, AlwaysDefined))
      | None \<Rightarrow> m)"

text \<open>
  The constructor. \<open>qec\<close> and \<open>child\<close> are pointers and may be null
  (\<open>None\<close>); both are checked first.
\<close>

definition TransitivePathBase_ctor ::
  "'q option \<Rightarrow> ('op, 'g) QueryExecutionTree option \<Rightarrow> ('op, 'g) TransitivePathSide
     \<Rightarrow> ('op, 'g) TransitivePathSide \<Rightarrow> nat \<Rightarrow> nat \<Rightarrow> 'g
     \<Rightarrow> error + ('op, 'g) TransitivePathBase" where
  "TransitivePathBase_ctor qec child leftSide rightSide minDist maxDist activeGraphs =
     (case qec of
        None \<Rightarrow> Inl CorrectnessCheckFailed
      | Some q \<Rightarrow>
     (case child of
        None \<Rightarrow> Inl CorrectnessCheckFailed
      | Some subtree \<Rightarrow>
          let this = \<lparr> subtree' = subtree, lhs' = leftSide, rhs' = rightSide,
                       minDist' = minDist, maxDist' = maxDist,
                       activeGraphs' = activeGraphs,
                       variableColumns' =
                         setVariableColumn rightSide 1
                           (setVariableColumn leftSide 0 Map.empty),
                       boundVariableIsForEmptyPath' = False \<rparr>;
              this = (if minDist' this = 0 then
                        (let startingSide = decideDirection (lhs' this) (rhs' this) in
                         if \<not> isVariable (lhs' this) \<and> \<not> isVariable (rhs' this)
                            \<and> value' (lhs' this) \<noteq> value' (rhs' this)
                         then this\<lparr> minDist' := 1 \<rparr>
                         else if isUnboundVariable (lhs' this)
                                 \<and> isUnboundVariable (rhs' this)
                         then this\<lparr> boundVariableIsForEmptyPath' := True,
                                    lhs' := (lhs' this)\<lparr> treeAndCol' :=
                                      Some (makeEmptyPathSide (activeGraphs' this) None, 0) \<rparr> \<rparr>
                         else (case startingSide of
                                 StartLeft \<Rightarrow>
                                   if \<not> isVariable (lhs' this)
                                   then this\<lparr> lhs' := (lhs' this)\<lparr> treeAndCol' :=
                                          Some (joinWithIndexScan (activeGraphs' this)
                                                  (value' (lhs' this)), 0) \<rparr> \<rparr>
                                   else this
                               | StartRight \<Rightarrow>
                                   if \<not> isVariable (rhs' this)
                                   then this\<lparr> rhs' := (rhs' this)\<lparr> treeAndCol' :=
                                          Some (joinWithIndexScan (activeGraphs' this)
                                                  (value' (rhs' this)), 0) \<rparr> \<rparr>
                                   else this))
                      else this)
          in Inr (this\<lparr> lhs' := (lhs' this)\<lparr> outputCol' := 0 \<rparr>,
                        rhs' := (rhs' this)\<lparr> outputCol' := 1 \<rparr> \<rparr>)))"

text \<open>
  \<open>getSizeEstimateBeforeLimit\<close>. The estimate of a subtree comes from
  \<open>QueryExecutionTree::getSizeEstimate\<close>, which is not among the sources and is a
  parameter here. Sizes are \<open>size_t\<close> and \<open>uint64_t\<close>: 64-bit words, so the
  product wraps around.
\<close>

definition getSizeEstimateBeforeLimit ::
  "(('op, 'g) QueryExecutionTree \<Rightarrow> 64 word) \<Rightarrow> ('op, 'g) TransitivePathBase
     \<Rightarrow> error + 64 word" where
  "getSizeEstimateBeforeLimit getSizeEstimate this =
     (if \<not> isVariable (lhs' this) \<or> \<not> isVariable (rhs' this) then Inr 1000
      else (case treeAndCol' (lhs' this) of
              Some (tree, col) \<Rightarrow> Inr (getSizeEstimate tree)
            | None \<Rightarrow>
          (case treeAndCol' (rhs' this) of
              Some (tree, col) \<Rightarrow> Inr (getSizeEstimate tree)
            | None \<Rightarrow>
                if isVariable (lhs' this) \<and> isVariable (rhs' this)
                then Inr (getSizeEstimate (subtree' this) * 10000)
                else Inl CorrectnessCheckFailed)))"

section \<open>Materialized views: the invariance filter (engine/MaterializedViewsQueryAnalysis)\<close>

datatype VarOrPath = PredicateVariable Variable | PropertyPath string

text \<open>The members \<open>s_\<close>, \<open>p_\<close> and \<open>o_\<close> of a triple.\<close>

record SparqlTriple =
  triple_s :: TripleComponent
  triple_p :: VarOrPath
  triple_o :: TripleComponent

fun getPredicateVariable :: "SparqlTriple \<Rightarrow> Variable option" where
  "getPredicateVariable triple =
     (case triple_p triple of PredicateVariable v \<Rightarrow> Some v | PropertyPath path \<Rightarrow> None)"

record BasicGraphPattern =
  triples' :: "SparqlTriple list"

record Bind =
  expression' :: string
  target' :: Variable

record SparqlValues =
  variables' :: "Variable list"
  values' :: "TripleComponent list list"

record Values =
  inlineValues' :: SparqlValues

text \<open>
  \<open>parsedQuery::GraphPatternOperation\<close> is a variant. An \<open>Optional\<close> holds the
  graph pattern of its body; \<open>GPOther\<close> stands for the alternatives that the filter
  treats alike (union, subquery, minus and so on).
\<close>

datatype GraphPatternOperation =
    GPBasic BasicGraphPattern
  | GPOptional "GraphPatternOperation list"
  | GPBind Bind
  | GPValues Values
  | GPOther string

definition variablesOfTriple :: "SparqlTriple \<Rightarrow> Variable set" where
  "variablesOfTriple triple =
     (case getVariable (triple_s triple) of Some v \<Rightarrow> {v} | None \<Rightarrow> {})
     \<union> (case getVariable (triple_o triple) of Some v \<Rightarrow> {v} | None \<Rightarrow> {})
     \<union> (case getPredicateVariable triple of Some v \<Rightarrow> {v} | None \<Rightarrow> {})"

fun getVariablesPresentInBasicGraphPatterns ::
  "GraphPatternOperation list \<Rightarrow> Variable set" where
  "getVariablesPresentInBasicGraphPatterns [] = {}"
| "getVariablesPresentInBasicGraphPatterns (GPBasic basic # graphPatterns) =
     (\<Union> (set (map variablesOfTriple (triples' basic))))
     \<union> getVariablesPresentInBasicGraphPatterns graphPatterns"
| "getVariablesPresentInBasicGraphPatterns (other # graphPatterns) =
     getVariablesPresentInBasicGraphPatterns graphPatterns"

text \<open>
  The three overloads of \<open>BasicGraphPatternsInvariantTo::operator()\<close>, the
  template that answers every other alternative, and the dispatch of
  \<open>std::visit\<close>. The first argument is the member \<open>variables_\<close>.
\<close>

definition invariantTo_Optional :: "Variable set \<Rightarrow> GraphPatternOperation list \<Rightarrow> bool" where
  "invariantTo_Optional variables optional = False"

definition invariantTo_Bind :: "Variable set \<Rightarrow> Bind \<Rightarrow> bool" where
  "invariantTo_Bind variables bind = (target' bind \<notin> variables)"

definition invariantTo_Values :: "Variable set \<Rightarrow> Values \<Rightarrow> bool" where
  "invariantTo_Values variables vals =
     (\<not> list_ex (\<lambda>var. var \<in> variables) (variables' (inlineValues' vals)))"

fun BasicGraphPatternsInvariantTo :: "Variable set \<Rightarrow> GraphPatternOperation \<Rightarrow> bool" where
  "BasicGraphPatternsInvariantTo variables (GPOptional optional) =
     invariantTo_Optional variables optional"
| "BasicGraphPatternsInvariantTo variables (GPBind bind) = invariantTo_Bind variables bind"
| "BasicGraphPatternsInvariantTo variables (GPValues vals) =
     invariantTo_Values variables vals"
| "BasicGraphPatternsInvariantTo variables (GPBasic basic) = False"
| "BasicGraphPatternsInvariantTo variables (GPOther other) = False"

section \<open>DeltaTriplesCount\<close>

text \<open>
  Modelled from the spec: \<open>DeltaTriplesCount\<close> lives in index/DeltaTriples.h, which
  is not among the sources; only its test is. Section 3 gives the count as
  \<open>{inserted, deleted}\<close> over signed integers, the JSON projection with the
  additional key \<open>total\<close>, and the component-wise difference.
\<close>

record DeltaTriplesCount =
  inserted :: int
  deleted :: int

datatype json = JNumber int | JObject "(string \<times> json) list"

definition to_json :: "DeltaTriplesCount \<Rightarrow> json" where
  "to_json count =
     JObject [(''inserted'', JNumber (inserted count)),
              (''deleted'', JNumber (deleted count)),
              (''total'', JNumber (inserted count + deleted count))]"

definition subtractCounts :: "DeltaTriplesCount \<Rightarrow> DeltaTriplesCount \<Rightarrow> DeltaTriplesCount" where
  "subtractCounts a b =
     \<lparr> inserted = inserted a - inserted b, deleted = deleted a - deleted b \<rparr>"

section \<open>GeoVocabulary (index/vocabulary/GeoVocabulary.h and .cpp)\<close>

text \<open>
  \<open>GeometryInfo\<close> (rdfTypes/GeometryInfo.h) is not among the sources. The
  vocabulary touches it only through its object representation, the
  \<open>sizeof(GeometryInfo)\<close> bytes that \<open>File::write\<close> copies out and
  \<open>absl::bit_cast\<close> copies in, so a \<open>GeometryInfo\<close> is modelled by these bytes.
  What the absent header fixes is a parameter: the version constant, the size of the
  type, the parser \<open>GeometryInfo::fromWktLiteral\<close> and the validity of the metric
  area. \<open>num_threads\<close> is \<open>std::thread::hardware_concurrency()\<close>.
\<close>

datatype GeometryInfo = GeometryInfo (objectRepresentation: "8 word list")

record Parameters =
  GEOMETRY_INFO_VERSION :: "32 word"
  geoInfoOffset :: nat
  fromWktLiteral :: "string \<Rightarrow> GeometryInfo option"
  metricAreaIsValid :: "GeometryInfo \<Rightarrow> bool"
  num_threads :: nat

text \<open>
  Modelled from the spec: the type of \<open>GEOMETRY_INFO_VERSION\<close> is declared in the
  absent header; section 6 gives the sidecar a 4-byte version header, so the constant
  is a 32-bit word and \<open>geoInfoHeader\<close>, its size, is 4.
\<close>

definition geoInfoHeader :: nat where
  "geoInfoHeader = 4"

definition queue_capacity :: nat where
  "queue_capacity = 1000"

definition geoInfoSuffix :: string where
  "geoInfoSuffix = ''.geoinfo''"

definition getGeoInfoFilename :: "string \<Rightarrow> string" where
  "getGeoInfoFilename filename = filename @ geoInfoSuffix"

definition invalidGeoInfoBuffer :: "Parameters \<Rightarrow> 8 word list" where
  "invalidGeoInfoBuffer prm = replicate (geoInfoOffset prm) 0"

definition bit_cast :: "8 word list \<Rightarrow> GeometryInfo" where
  "bit_cast buffer = GeometryInfo buffer"

text \<open>
  A file is its bytes. \<open>File::read\<close> with an offset copies the bytes found there
  (fewer than asked for at the end of the file); \<open>File::write\<close> appends at the
  current position, which only ever is the end here. The version word is stored the
  way the supported platforms lay it out, lowest byte first; \<open>open\<close> reads into a
  word that starts as 0, so bytes that a short file lacks stay 0.
\<close>

type_synonym File = "8 word list"

definition File_read :: "File \<Rightarrow> nat \<Rightarrow> nat \<Rightarrow> 8 word list" where
  "File_read file nofBytesToRead offset = take nofBytesToRead (drop offset file)"

text \<open>
  \<open>File::read\<close> copies into the memory of its target: what it does not reach of the
  target keeps its content.
\<close>

definition File_read_into :: "8 word list \<Rightarrow> File \<Rightarrow> nat \<Rightarrow> nat \<Rightarrow> 8 word list" where
  "File_read_into target file nofBytesToRead offset =
     (let bytes = File_read file nofBytesToRead offset
      in bytes @ drop (length bytes) target)"

definition File_write :: "File \<Rightarrow> 8 word list \<Rightarrow> File" where
  "File_write file bytes = file @ bytes"

definition bytesOfVersion :: "32 word \<Rightarrow> 8 word list" where
  "bytesOfVersion v =
     [ucast v, ucast (drop_bit 8 v), ucast (drop_bit 16 v), ucast (drop_bit 24 v)]"

fun versionOfBytes :: "8 word list \<Rightarrow> 32 word" where
  "versionOfBytes [] = 0"
| "versionOfBytes (b # bs) = ucast b OR push_bit 8 (versionOfBytes bs)"

text \<open>\<open>absl::StrCat\<close> prints an unsigned integer in decimal.\<close>

definition digit :: "nat \<Rightarrow> char" where
  "digit d = ''0123456789'' ! d"

function decimal :: "nat \<Rightarrow> string" where
  "decimal n = (if n < 10 then [digit n] else decimal (n div 10) @ [digit (n mod 10)])"
  by pat_completeness auto
termination
  by (relation "measure id") auto

declare decimal.simps [simp del]

record GeoVocabulary =
  literals' :: "string list"
  geoInfoFile' :: File

definition size' :: "GeoVocabulary \<Rightarrow> 64 word" where
  "size' voc = of_nat (length (literals' voc))"

definition versionMismatchMessage :: "string \<Rightarrow> 32 word \<Rightarrow> 32 word \<Rightarrow> string" where
  "versionMismatchMessage filename versionOfFile required =
     ''The geometry info version of '' @ getGeoInfoFilename filename @ '' is ''
     @ decimal (unat versionOfFile) @ '', which is incompatible with version ''
     @ decimal (unat required)
     @ '' as required by this version of QLever. Please rebuild your index.''"

text \<open>The version word that \<open>open\<close> finds at the start of a file.\<close>

definition storedVersion :: "File \<Rightarrow> 32 word" where
  "storedVersion f = versionOfBytes (File_read f geoInfoHeader 0)"

text \<open>
  \<open>GeoVocabulary::open\<close>. The words that \<open>literals_.open\<close> loads and the
  content of the files by name are given; opening the files themselves is the business
  of the underlying vocabulary and of \<open>ad_utility::File\<close>.
\<close>

definition GeoVocabulary_open ::
  "Parameters \<Rightarrow> (string \<Rightarrow> string list) \<Rightarrow> (string \<Rightarrow> File) \<Rightarrow> string
     \<Rightarrow> error + GeoVocabulary" where
  "GeoVocabulary_open prm underlying files filename =
     (let literals = underlying filename;
          geoInfoFile = files (getGeoInfoFilename filename);
          versionOfFile = storedVersion geoInfoFile
      in if versionOfFile \<noteq> GEOMETRY_INFO_VERSION prm
         then Inl (RuntimeError (versionMismatchMessage filename versionOfFile
                     (GEOMETRY_INFO_VERSION prm)))
         else Inr \<lparr> literals' = literals, geoInfoFile' = geoInfoFile \<rparr>)"

text \<open>
  \<open>GeoVocabulary::getGeoInfo\<close>. The index and the offset are 64-bit unsigned, so
  the offset is computed with wrap-around. The \<open>std::array\<close> that receives the
  record is not initialised: \<open>uninitialised i\<close> is what its byte \<open>i\<close> holds
  before the read, and still holds after a read that the end of the file cuts short.
\<close>

definition getGeoInfo ::
  "Parameters \<Rightarrow> GeoVocabulary \<Rightarrow> (nat \<Rightarrow> 8 word) \<Rightarrow> 64 word
     \<Rightarrow> error + GeometryInfo option" where
  "getGeoInfo prm voc uninitialised index =
     (if \<not> index < size' voc then Inl ContractCheckFailed
      else let buffer = File_read_into (map uninitialised [0..<geoInfoOffset prm])
                          (geoInfoFile' voc) (geoInfoOffset prm)
                          (unat (of_nat geoInfoHeader + index * of_nat (geoInfoOffset prm)
                                 :: 64 word))
           in if buffer = invalidGeoInfoBuffer prm then Inr None
              else Inr (Some (bit_cast buffer)))"

text \<open>
  The record of the index \<open>i\<close>: the \<open>geoInfoOffset\<close> bytes at the offset
  \<open>geoInfoHeader + i * geoInfoOffset\<close>, in plain arithmetic.
\<close>

definition recordAt :: "Parameters \<Rightarrow> File \<Rightarrow> nat \<Rightarrow> 8 word list" where
  "recordAt prm file i =
     take (geoInfoOffset prm) (drop (geoInfoHeader + i * geoInfoOffset prm) file)"

subsection \<open>The word writer and its threads\<close>

datatype WorkItem = WorkItem (item_index: nat) (item_data: string)

datatype Result = Result (result_index: nat) (result_output: "GeometryInfo option")

definition process :: "Parameters \<Rightarrow> WorkItem \<Rightarrow> Result" where
  "process prm item = Result (item_index item) (fromWktLiteral prm (item_data item))"

text \<open>
  A worker thread waits in \<open>work_queue.pop()\<close>, or holds an item whose result it
  has not published yet, or has left its loop. The calling thread accepts words until
  it calls \<open>finish\<close>; then it has closed the queue and joins the workers, then it
  has set \<open>done_processing\<close> and is about to notify, then it joins the writer
  thread, then it is through.

  The writer thread holds \<open>result_mutex\<close> from its first statement on, except
  while it sleeps in \<open>result_cv.wait\<close>. It has been created and has not taken
  the mutex yet, or it holds the mutex and is somewhere in its loop, or it holds the
  mutex and has just found the predicate of the \<open>wait\<close> false, or it sleeps in the
  \<open>wait\<close> (the mutex released), or it has been notified and has to take the
  mutex again, or it has left its loop. A notification wakes it only when it sleeps;
  wake-ups without a notification are not counted on.
\<close>

datatype WorkerThread = Waiting | Processing WorkItem | Exited

datatype CallerThread =
  Accepting | JoiningWorkers | NotifyingWriter | JoiningWriter | Finished

datatype WriterThread =
    WriterStarting
  | WriterLocked
  | WriterAboutToSleep
  | WriterSleeping
  | WriterNotified
  | WriterExited

definition notify :: "WriterThread \<Rightarrow> WriterThread" where
  "notify w = (if w = WriterSleeping then WriterNotified else w)"

text \<open>
  The state that the threads share. \<open>work_queue\<close> and \<open>work_queue_done\<close> are the
  members \<open>q\<close> and \<open>done\<close> of the bounded queue, \<open>results\<close> is the
  \<open>std::map\<close> as an association list, \<open>writer_next\<close> is the local \<open>next\<close> of
  the writer thread and \<open>writer\<close> where that thread stands, \<open>returned\<close> collects what the calls of \<open>operator()\<close> gave
  back. Modelled from the spec: the word writer of the underlying vocabulary is not
  among the sources; it is the list of the words written so far, and by section 4.1
  the index it assigns is the next dense one, the number of words before.
\<close>

record WordWriter =
  underlyingWordWriter' :: "(string \<times> bool) list"
  writerGeoInfoFile' :: File
  numInvalidGeometries' :: nat
  numInvalidPolygonArea' :: nat
  work_queue :: "WorkItem list"
  work_queue_done :: bool
  results :: "(nat \<times> Result) list"
  done_processing :: bool
  workers :: "WorkerThread list"
  writer_next :: nat
  writer :: WriterThread
  caller :: CallerThread
  returned :: "nat list"

definition WordWriter_ctor :: "Parameters \<Rightarrow> WordWriter" where
  "WordWriter_ctor prm =
     \<lparr> underlyingWordWriter' = [],
       writerGeoInfoFile' = File_write [] (bytesOfVersion (GEOMETRY_INFO_VERSION prm)),
       numInvalidGeometries' = 0,
       numInvalidPolygonArea' = 0,
       work_queue = [],
       work_queue_done = False,
       results = [],
       done_processing = False,
       workers = replicate (num_threads prm) Waiting,
       writer_next = 0,
       writer = WriterStarting,
       caller = Accepting,
       returned = [] \<rparr>"

text \<open>
  What happens is a sequence of events, each one a critical section or a single
  statement of one thread; the order of the events is the schedule, and any order is
  possible. An event that its thread cannot perform in the state (a \<open>push\<close> on a
  full queue, a \<open>pop\<close> on an empty one, a critical section while another thread
  holds the mutex, a \<open>join\<close> of a thread that still runs) has no successor state.
  \<^item> \<open>Call\<close>: \<open>operator()\<close> stores the word in the underlying vocabulary, pushes the
    item and returns the index.
  \<^item> \<open>WorkerPop k\<close>, \<open>WorkerPublish k\<close>, \<open>WorkerExit k\<close>: worker \<open>k\<close> pops an
    item; stores its result under \<open>result_mutex\<close> and calls \<open>notify_one\<close>; or
    gets \<open>nullopt\<close> from the closed and empty queue.
  \<^item> \<open>WriterLock\<close>: the writer thread takes \<open>result_mutex\<close>, at its start or
    after a notification. \<open>WriterWrite\<close>: one round of its inner loop.
    \<open>WriterExit\<close>: its \<open>break\<close>. \<open>WriterSeesNothing\<close>: it finds the predicate
    of the \<open>wait\<close> false. \<open>WriterSleep\<close>: it releases the mutex and sleeps, as
    \<open>wait\<close> does in one step.
  \<^item> \<open>FinishClose\<close>, \<open>FinishJoinWorkers\<close>, \<open>FinishNotify\<close>,
    \<open>FinishJoinWriter\<close>: the statements of \<open>finishImpl\<close>: closing the queue; the
    joins of the workers and the store to \<open>done_processing\<close>, which is made without
    \<open>result_mutex\<close>; \<open>notify_all\<close>; the join of the writer thread, after which
    the underlying writer is finished and the file closed.
  A thread that waits for ever shows as a schedule that cannot go on.
\<close>

datatype Event =
    Call string bool
  | WorkerPop nat
  | WorkerPublish nat
  | WorkerExit nat
  | WriterLock
  | WriterWrite
  | WriterExit
  | WriterSeesNothing
  | WriterSleep
  | FinishClose
  | FinishJoinWorkers
  | FinishNotify
  | FinishJoinWriter

definition writeResult :: "Parameters \<Rightarrow> GeometryInfo option \<Rightarrow> WordWriter \<Rightarrow> WordWriter" where
  "writeResult prm info s =
     (case info of
        Some i \<Rightarrow>
          s\<lparr> numInvalidPolygonArea' :=
               (if \<not> metricAreaIsValid prm i then numInvalidPolygonArea' s + 1
                else numInvalidPolygonArea' s),
             writerGeoInfoFile' := File_write (writerGeoInfoFile' s) (objectRepresentation i) \<rparr>
      | None \<Rightarrow>
          s\<lparr> numInvalidGeometries' := numInvalidGeometries' s + 1,
             writerGeoInfoFile' := File_write (writerGeoInfoFile' s) (invalidGeoInfoBuffer prm) \<rparr>)"

fun step :: "Parameters \<Rightarrow> WordWriter \<Rightarrow> Event \<Rightarrow> WordWriter option" where
  "step prm s (Call word isExternal) =
     (if caller s = Accepting \<and> length (work_queue s) < queue_capacity
      then let index = length (underlyingWordWriter' s)
           in Some (s\<lparr> underlyingWordWriter' := underlyingWordWriter' s @ [(word, isExternal)],
                       work_queue := work_queue s @ [WorkItem index word],
                       returned := returned s @ [index] \<rparr>)
      else None)"
| "step prm s (WorkerPop k) =
     (if k < length (workers s) \<and> workers s ! k = Waiting
      then (case work_queue s of
              [] \<Rightarrow> None
            | item # rest \<Rightarrow>
                Some (s\<lparr> work_queue := rest, workers := (workers s)[k := Processing item] \<rparr>))
      else None)"
| "step prm s (WorkerPublish k) =
     (if k < length (workers s) \<and> writer s \<noteq> WriterLocked \<and> writer s \<noteq> WriterAboutToSleep
      then (case workers s ! k of
              Processing item \<Rightarrow>
                let r = process prm item
                in Some (s\<lparr> results := AList.update (result_index r) r (results s),
                            workers := (workers s)[k := Waiting],
                            writer := notify (writer s) \<rparr>)
            | _ \<Rightarrow> None)
      else None)"
| "step prm s (WorkerExit k) =
     (if k < length (workers s) \<and> workers s ! k = Waiting
         \<and> work_queue_done s \<and> work_queue s = []
      then Some (s\<lparr> workers := (workers s)[k := Exited] \<rparr>)
      else None)"
| "step prm s WriterLock =
     (if writer s = WriterStarting \<or> writer s = WriterNotified
      then Some (s\<lparr> writer := WriterLocked \<rparr>)
      else None)"
| "step prm s WriterWrite =
     (if writer s \<noteq> WriterLocked then None
      else (case map_of (results s) (writer_next s) of
              None \<Rightarrow> None
            | Some r \<Rightarrow>
                Some ((writeResult prm (result_output r) s)
                        \<lparr> results := AList.delete (writer_next s) (results s),
                          writer_next := writer_next s + 1 \<rparr>)))"
| "step prm s WriterExit =
     (if writer s = WriterLocked \<and> map_of (results s) (writer_next s) = None
         \<and> done_processing s \<and> results s = []
      then Some (s\<lparr> writer := WriterExited \<rparr>)
      else None)"
| "step prm s WriterSeesNothing =
     (if writer s = WriterLocked \<and> \<not> done_processing s
         \<and> map_of (results s) (writer_next s) = None
      then Some (s\<lparr> writer := WriterAboutToSleep \<rparr>)
      else None)"
| "step prm s WriterSleep =
     (if writer s = WriterAboutToSleep
      then Some (s\<lparr> writer := WriterSleeping \<rparr>)
      else None)"
| "step prm s FinishClose =
     (if caller s = Accepting
      then Some (s\<lparr> work_queue_done := True, caller := JoiningWorkers \<rparr>)
      else None)"
| "step prm s FinishJoinWorkers =
     (if caller s = JoiningWorkers \<and> list_all (\<lambda>w. w = Exited) (workers s)
      then Some (s\<lparr> done_processing := True, caller := NotifyingWriter \<rparr>)
      else None)"
| "step prm s FinishNotify =
     (if caller s = NotifyingWriter
      then Some (s\<lparr> writer := notify (writer s), caller := JoiningWriter \<rparr>)
      else None)"
| "step prm s FinishJoinWriter =
     (if caller s = JoiningWriter \<and> writer s = WriterExited
      then Some (s\<lparr> caller := Finished \<rparr>)
      else None)"

fun run :: "Parameters \<Rightarrow> WordWriter \<Rightarrow> Event list \<Rightarrow> WordWriter option" where
  "run prm s [] = Some s"
| "run prm s (e # es) = (case step prm s e of None \<Rightarrow> None | Some s' \<Rightarrow> run prm s' es)"

text \<open>
  The vocabulary that \<open>open\<close> finds once the writer is through: the words of the
  underlying vocabulary and the sidecar file as written.
\<close>

definition writtenVocabulary :: "WordWriter \<Rightarrow> GeoVocabulary" where
  "writtenVocabulary s =
     \<lparr> literals' = map fst (underlyingWordWriter' s),
       geoInfoFile' = writerGeoInfoFile' s \<rparr>"

text \<open>
  The guarantee that the code cites from the class \<open>GeometryInfo\<close>: an object has
  \<open>sizeof(GeometryInfo)\<close> bytes, and they are never all zero.
\<close>

definition geometryInfoGuarantee :: "Parameters \<Rightarrow> bool" where
  "geometryInfoGuarantee prm =
     (0 < geoInfoOffset prm \<and>
      (\<forall>word info. fromWktLiteral prm word = Some info \<longrightarrow>
        length (objectRepresentation info) = geoInfoOffset prm
        \<and> objectRepresentation info \<noteq> invalidGeoInfoBuffer prm))"

text \<open>
  The single-threaded reference: the record of a word is the object representation of
  its \<open>GeometryInfo\<close>, or the zero buffer when parsing fails, and the reference
  file is the header followed by the records of the words in their order.
\<close>

definition recordOf :: "Parameters \<Rightarrow> GeometryInfo option \<Rightarrow> 8 word list" where
  "recordOf prm info =
     (case info of Some i \<Rightarrow> objectRepresentation i | None \<Rightarrow> invalidGeoInfoBuffer prm)"

definition expectedFile :: "Parameters \<Rightarrow> string list \<Rightarrow> File" where
  "expectedFile prm ws =
     bytesOfVersion (GEOMETRY_INFO_VERSION prm)
     @ concat (map (\<lambda>w. recordOf prm (fromWktLiteral prm w)) ws)"

text \<open>The input sequence of a schedule: the words of its calls, in order.\<close>

fun inputOf :: "Event list \<Rightarrow> (string \<times> bool) list" where
  "inputOf [] = []"
| "inputOf (Call word isExternal # es) = (word, isExternal) # inputOf es"
| "inputOf (e # es) = inputOf es"

subsection \<open>The invariant of the writer\<close>

text \<open>
  \<open>popped\<close> counts the items that left the queue. The queue holds the items
  from \<open>popped\<close> on in order; an item below \<open>popped\<close> and not below
  \<open>writer_next\<close> is held by exactly one worker or has its result in the map; the
  file holds the records below \<open>writer_next\<close>.
\<close>

definition wordAt :: "WordWriter \<Rightarrow> nat \<Rightarrow> string" where
  "wordAt s i = fst (underlyingWordWriter' s ! i)"

definition popped :: "WordWriter \<Rightarrow> nat" where
  "popped s = length (underlyingWordWriter' s) - length (work_queue s)"

definition inv_queue :: "Parameters \<Rightarrow> WordWriter \<Rightarrow> bool" where
  "inv_queue prm s \<longleftrightarrow>
     length (work_queue s) \<le> length (underlyingWordWriter' s)
     \<and> work_queue s = map (\<lambda>i. WorkItem i (wordAt s i))
                         [popped s..<length (underlyingWordWriter' s)]
     \<and> writer_next s \<le> popped s
     \<and> returned s = [0..<length (underlyingWordWriter' s)]
     \<and> length (workers s) = num_threads prm"

definition inv_workers :: "WordWriter \<Rightarrow> bool" where
  "inv_workers s \<longleftrightarrow>
     (\<forall>k item. k < length (workers s) \<longrightarrow> workers s ! k = Processing item \<longrightarrow>
        writer_next s \<le> item_index item \<and> item_index item < popped s
        \<and> item_data item = wordAt s (item_index item)
        \<and> map_of (results s) (item_index item) = None)"

definition inv_distinct :: "WordWriter \<Rightarrow> bool" where
  "inv_distinct s \<longleftrightarrow>
     (\<forall>k k' item item'. k < length (workers s) \<longrightarrow> k' < length (workers s) \<longrightarrow>
        workers s ! k = Processing item \<longrightarrow> workers s ! k' = Processing item' \<longrightarrow>
        item_index item = item_index item' \<longrightarrow> k = k')"

definition inv_results :: "Parameters \<Rightarrow> WordWriter \<Rightarrow> bool" where
  "inv_results prm s \<longleftrightarrow>
     (\<forall>i r. map_of (results s) i = Some r \<longrightarrow>
        writer_next s \<le> i \<and> i < popped s
        \<and> r = Result i (fromWktLiteral prm (wordAt s i)))"

definition inv_cover :: "WordWriter \<Rightarrow> bool" where
  "inv_cover s \<longleftrightarrow>
     (\<forall>i. writer_next s \<le> i \<longrightarrow> i < popped s \<longrightarrow>
        map_of (results s) i \<noteq> None
        \<or> (\<exists>k item. k < length (workers s) \<and> workers s ! k = Processing item
                    \<and> item_index item = i))"

definition inv_file :: "Parameters \<Rightarrow> WordWriter \<Rightarrow> bool" where
  "inv_file prm s \<longleftrightarrow>
     writerGeoInfoFile' s
       = expectedFile prm (take (writer_next s) (map fst (underlyingWordWriter' s)))"

definition inv_phase :: "WordWriter \<Rightarrow> bool" where
  "inv_phase s \<longleftrightarrow>
     ((\<exists>k. k < length (workers s) \<and> workers s ! k = Exited) \<longrightarrow>
         work_queue_done s \<and> work_queue s = [])
     \<and> (work_queue_done s \<longleftrightarrow> caller s \<noteq> Accepting)
     \<and> (done_processing s \<longleftrightarrow>
           caller s = NotifyingWriter \<or> caller s = JoiningWriter \<or> caller s = Finished)
     \<and> (done_processing s \<longrightarrow> (\<forall>k. k < length (workers s) \<longrightarrow> workers s ! k = Exited))
     \<and> (writer s = WriterExited \<longrightarrow>
           done_processing s \<and> writer_next s = length (underlyingWordWriter' s))
     \<and> (caller s = Finished \<longrightarrow> writer s = WriterExited)"

definition writerInvariant :: "Parameters \<Rightarrow> WordWriter \<Rightarrow> bool" where
  "writerInvariant prm s \<longleftrightarrow>
     inv_queue prm s \<and> inv_workers s \<and> inv_distinct s \<and> inv_results prm s
     \<and> inv_cover s \<and> inv_file prm s \<and> inv_phase s"

subsection \<open>A schedule that carries \<open>finish\<close> through\<close>

text \<open>
  One word after the other: the call, the first worker pops the item and publishes
  its result, the writer thread takes the mutex, writes the record and goes to sleep.
  Then \<open>finish\<close>: the queue is closed, every worker leaves its loop and is joined,
  the writer thread is notified, leaves its loop and is joined. In a quiescent state
  nothing is under way.
\<close>

definition oneWordEvents :: "string \<times> bool \<Rightarrow> Event list" where
  "oneWordEvents w =
     [Call (fst w) (snd w), WorkerPop 0, WorkerPublish 0,
      WriterLock, WriterWrite, WriterSeesNothing, WriterSleep]"

definition finishEvents :: "nat \<Rightarrow> Event list" where
  "finishEvents n =
     FinishClose # map WorkerExit [0..<n]
     @ [FinishJoinWorkers, FinishNotify, WriterLock, WriterExit, FinishJoinWriter]"

definition sequentialSchedule :: "nat \<Rightarrow> (string \<times> bool) list \<Rightarrow> Event list" where
  "sequentialSchedule n input = concat (map oneWordEvents input) @ finishEvents n"

definition quiescent :: "Parameters \<Rightarrow> WordWriter \<Rightarrow> bool" where
  "quiescent prm s \<longleftrightarrow>
     caller s = Accepting \<and> work_queue s = [] \<and> results s = []
     \<and> workers s = replicate (num_threads prm) Waiting
     \<and> (writer s = WriterStarting \<or> writer s = WriterSleeping)
     \<and> writer_next s = length (underlyingWordWriter' s)
     \<and> \<not> done_processing s \<and> \<not> work_queue_done s"

section \<open>Score variables (parser/data/Variable.cpp)\<close>

text \<open>
  The constructor of \<open>Variable\<close> normalises the first character to a question
  mark. \<open>SCORE_VARIABLE_PREFIX\<close> comes from global/Constants.h, which is not among
  the sources; its content is the one the expected names of the test
  TextIndexScanForEntityTest.cpp show. \<open>isalpha\<close> is the one of the C locale,
  \<open>std::to_string\<close> prints the \<open>char\<close> as a signed integer, and
  \<open>substr(1)\<close> drops the question mark of a name and throws on an empty name.
\<close>

definition SCORE_VARIABLE_PREFIX :: string where
  "SCORE_VARIABLE_PREFIX = ''?ql_score_''"

definition Variable_ctor :: "string \<Rightarrow> Variable" where
  "Variable_ctor n = Variable (case n of [] \<Rightarrow> [] | c # cs \<Rightarrow> CHR ''?'' # cs)"

definition isalpha :: "char \<Rightarrow> bool" where
  "isalpha c = (let n = (of_char c :: nat) in (65 \<le> n \<and> n \<le> 90) \<or> (97 \<le> n \<and> n \<le> 122))"

definition to_string :: "char \<Rightarrow> string" where
  "to_string c = (let n = (of_char c :: nat)
                  in if n < 128 then decimal n else ''-'' @ decimal (256 - n))"

definition appendEscapedWord :: "string \<Rightarrow> string \<Rightarrow> string" where
  "appendEscapedWord word target =
     foldl (\<lambda>target c. if isalpha c then target @ [c]
                        else target @ ''_'' @ to_string c @ ''_'') target word"

text \<open>The \<open>std::variant<Variable, std::string>\<close> of an entity.\<close>

datatype VarOrEntity = EntityVariable Variable | FixedEntity string

definition substr1 :: "string \<Rightarrow> error + string" where
  "substr1 str = (case str of [] \<Rightarrow> Inl OutOfRange | c # cs \<Rightarrow> Inr cs)"

definition getEntityScoreVariable :: "Variable \<Rightarrow> VarOrEntity \<Rightarrow> error + Variable" where
  "getEntityScoreVariable this varOrEntity =
     (case varOrEntity of
        EntityVariable v \<Rightarrow>
          (case substr1 (name v) of
             Inl e \<Rightarrow> Inl e
           | Inr entity \<Rightarrow>
          (case substr1 (name this) of
             Inl e \<Rightarrow> Inl e
           | Inr text \<Rightarrow>
               Inr (Variable_ctor (SCORE_VARIABLE_PREFIX @ text @ ''_var_'' @ entity))))
      | FixedEntity fixed \<Rightarrow>
          (let entity = appendEscapedWord fixed []
           in case substr1 (name this) of
                Inl e \<Rightarrow> Inl e
              | Inr text \<Rightarrow>
                  Inr (Variable_ctor (SCORE_VARIABLE_PREFIX @ text @ ''_fixedEntity_''
                                      @ entity))))"

section \<open>TextIndexScanForEntity\<close>

text \<open>
  Modelled from the spec: \<open>TextIndexScanForEntity\<close> (engine/TextIndexScanForEntity)
  is not among the sources; only its test is. By section 4.6 a scan is given a word
  (with a \<open>*\<close> at its end when it is a prefix), a text variable and an entity that
  is a variable or fixed; with a fixed entity the result width is 2, and a fixed
  entity that is not in the knowledge graph is an error of the construction, whose
  message (section 8, S3, and the test) names the entity and
  \<open>ql:contains-entity\<close>. With an entity variable the width is 3 (S2). The
  knowledge graph is the list of its entities. By sections 4.2 and 4.6 the cache key
  depends on the word, on whether it is a prefix and on the fixed entity, and not on
  the names of the variables; the spec gives the key no format, so the model keeps
  these three components as they are.
\<close>

record TextIndexScanForEntity =
  textRecordVar' :: Variable
  entity' :: VarOrEntity
  word' :: string

definition entityNotInGraphMessage :: "string \<Rightarrow> string" where
  "entityNotInGraphMessage e =
     ''The entity '' @ e @ '' is not part of the underlying knowledge graph and can ''
     @ ''therefore not be used as the object of ql:contains-entity''"

definition TextIndexScanForEntity_ctor ::
  "string list \<Rightarrow> Variable \<Rightarrow> VarOrEntity \<Rightarrow> string \<Rightarrow> error + TextIndexScanForEntity" where
  "TextIndexScanForEntity_ctor knowledgeGraph textRecordVar entity word =
     (case entity of
        FixedEntity e \<Rightarrow>
          if e \<in> set knowledgeGraph
          then Inr \<lparr> textRecordVar' = textRecordVar, entity' = entity, word' = word \<rparr>
          else Inl (RuntimeError (entityNotInGraphMessage e))
      | EntityVariable v \<Rightarrow>
          Inr \<lparr> textRecordVar' = textRecordVar, entity' = entity, word' = word \<rparr>)"

definition getResultWidth :: "TextIndexScanForEntity \<Rightarrow> nat" where
  "getResultWidth scan = (case entity' scan of FixedEntity e \<Rightarrow> 2 | EntityVariable v \<Rightarrow> 3)"

definition isPrefix :: "string \<Rightarrow> bool" where
  "isPrefix word = (word \<noteq> [] \<and> last word = CHR ''*'')"

definition fixedEntity :: "TextIndexScanForEntity \<Rightarrow> string option" where
  "fixedEntity scan = (case entity' scan of FixedEntity e \<Rightarrow> Some e | EntityVariable v \<Rightarrow> None)"

datatype CacheKey = EntityScanKey string bool "string option"

definition getCacheKeyImpl :: "TextIndexScanForEntity \<Rightarrow> CacheKey" where
  "getCacheKeyImpl scan = EntityScanKey (word' scan) (isPrefix (word' scan)) (fixedEntity scan)"

section \<open>Example inputs\<close>

definition operationEstimate :: "(nat, unit) QueryExecutionTree \<Rightarrow> 64 word" where
  "operationEstimate tree = (case tree of Operation n \<Rightarrow> of_nat n | _ \<Rightarrow> 0)"

definition xSide :: "(nat, unit) TransitivePathSide" where
  "xSide = \<lparr> treeAndCol' = None, outputCol' = 0, value' = TCVariable (Variable ''?x'') \<rparr>"

definition ySide :: "(nat, unit) TransitivePathSide" where
  "ySide = \<lparr> treeAndCol' = None, outputCol' = 1, value' = TCVariable (Variable ''?y'') \<rparr>"

definition iriSide :: "string \<Rightarrow> (nat, unit) TransitivePathSide" where
  "iriSide iri = \<lparr> treeAndCol' = None, outputCol' = 0, value' = TCIri iri \<rparr>"

definition boundLeftPath :: "(nat, unit) TransitivePathBase" where
  "boundLeftPath =
     \<lparr> subtree' = Operation 5,
       lhs' = xSide\<lparr> treeAndCol' := Some (Operation 7, 0) \<rparr>,
       rhs' = ySide,
       minDist' = 1, maxDist' = 3, activeGraphs' = (),
       variableColumns' = [Variable ''?x'' \<mapsto> (0, AlwaysDefined),
                           Variable ''?y'' \<mapsto> (1, AlwaysDefined)],
       boundVariableIsForEmptyPath' = False \<rparr>"

definition exampleParameters :: Parameters where
  "exampleParameters =
     \<lparr> GEOMETRY_INFO_VERSION = 2,
       geoInfoOffset = 2,
       fromWktLiteral = (\<lambda>w. if w = ''POINT(1 2)'' then Some (GeometryInfo [1, 2])
                              else if w = ''LINESTRING(0 0, 3 3)'' then Some (GeometryInfo [0, 3])
                              else None),
       metricAreaIsValid = (\<lambda>i. True),
       num_threads = 2 \<rparr>"

definition exampleSchedule :: "Event list" where
  "exampleSchedule =
     [Call ''POINT(1 2)'' False, Call ''garbage'' False, Call ''LINESTRING(0 0, 3 3)'' True,
      WorkerPop 0, WorkerPop 1, WorkerPublish 1, WriterLock, WriterSeesNothing, WriterSleep,
      WorkerPop 1, WorkerPublish 1, WriterLock, WriterSeesNothing, WriterSleep,
      FinishClose, WorkerPublish 0, WriterLock, WriterWrite, WorkerExit 1, WriterWrite,
      WriterWrite, WriterSeesNothing, WriterSleep, WorkerExit 0,
      FinishJoinWorkers, FinishNotify, WriterLock, WriterExit, FinishJoinWriter]"

definition exampleWritten :: WordWriter where
  "exampleWritten =
     \<lparr> underlyingWordWriter' =
         [(''POINT(1 2)'', False), (''garbage'', False), (''LINESTRING(0 0, 3 3)'', True)],
       writerGeoInfoFile' = [2, 0, 0, 0, 1, 2, 0, 0, 0, 3],
       numInvalidGeometries' = 1,
       numInvalidPolygonArea' = 0,
       work_queue = [],
       work_queue_done = True,
       results = [],
       done_processing = True,
       workers = [Exited, Exited],
       writer_next = 3,
       writer = WriterExited,
       caller = Finished,
       returned = [0, 1, 2] \<rparr>"

text \<open>
  A machine on which \<open>std::thread::hardware_concurrency()\<close> is 0, which the
  standard allows: one word is written and \<open>finish\<close> called.
\<close>

definition noWorkerParameters :: Parameters where
  "noWorkerParameters = exampleParameters\<lparr> num_threads := 0 \<rparr>"

definition noWorkerSchedule :: "Event list" where
  "noWorkerSchedule =
     [Call ''POINT(1 2)'' False,
      FinishClose, FinishJoinWorkers, FinishNotify, WriterLock, WriterExit, FinishJoinWriter]"

definition noWorkerWritten :: WordWriter where
  "noWorkerWritten =
     \<lparr> underlyingWordWriter' = [(''POINT(1 2)'', False)],
       writerGeoInfoFile' = [2, 0, 0, 0],
       numInvalidGeometries' = 0,
       numInvalidPolygonArea' = 0,
       work_queue = [WorkItem 0 ''POINT(1 2)''],
       work_queue_done = True,
       results = [],
       done_processing = True,
       workers = [],
       writer_next = 0,
       writer = WriterExited,
       caller = Finished,
       returned = [0] \<rparr>"

text \<open>
  Two workers and one word, whose record is written. The writer thread then finds the
  predicate of its \<open>wait\<close> false; before it sleeps, \<open>finishImpl\<close> joins the
  workers, stores \<open>done_processing\<close> and calls \<open>notify_all\<close>, which finds no
  sleeper.
\<close>

definition lostWakeUpSchedule :: "Event list" where
  "lostWakeUpSchedule =
     [Call ''POINT(1 2)'' False, WorkerPop 0, WorkerPublish 0, WriterLock, WriterWrite,
      FinishClose, WorkerExit 0, WorkerExit 1, WriterSeesNothing,
      FinishJoinWorkers, FinishNotify, WriterSleep]"

definition lostWakeUpState :: WordWriter where
  "lostWakeUpState =
     \<lparr> underlyingWordWriter' = [(''POINT(1 2)'', False)],
       writerGeoInfoFile' = [2, 0, 0, 0, 1, 2],
       numInvalidGeometries' = 0,
       numInvalidPolygonArea' = 0,
       work_queue = [],
       work_queue_done = True,
       results = [],
       done_processing = True,
       workers = [Exited, Exited],
       writer_next = 1,
       writer = WriterSleeping,
       caller = JoiningWriter,
       returned = [0] \<rparr>"

definition exampleFiles :: "string \<Rightarrow> File" where
  "exampleFiles n = (if n = ''old.geoinfo'' then [1, 0, 0, 0, 1, 2]
                     else if n = ''vocab.geoinfo'' then [2, 0, 0, 0, 1, 2, 0, 0, 0, 3]
                     else [])"

definition exampleWords :: "string \<Rightarrow> string list" where
  "exampleWords n = [''POINT(1 2)'', ''garbage'', ''LINESTRING(0 0, 3 3)'']"

definition testGraph :: "string list" where
  "testGraph = [''\"he failed the test\"'', ''\"testing can help\"'', ''\"some other sentence\"'',
                ''\"the test on friday was really hard\"'']"

text \<open>The write query of a view with a simple chain, followed by a bind.\<close>

definition exampleViewPatterns :: "GraphPatternOperation list" where
  "exampleViewPatterns =
     [GPBasic \<lparr> triples' =
        [\<lparr> triple_s = TCVariable (Variable ''?s''), triple_p = PropertyPath ''<p1>'',
            triple_o = TCVariable (Variable ''?m'') \<rparr>,
         \<lparr> triple_s = TCVariable (Variable ''?m''), triple_p = PropertyPath ''<p2>'',
            triple_o = TCVariable (Variable ''?o'') \<rparr>] \<rparr>,
      GPBind \<lparr> expression' = ''1 + 1'', target' = Variable ''?x'' \<rparr>]"

section \<open>Lemmas about the word writer\<close>

lemma upd_Processing:
  assumes "j < length ws"
  shows "(ws[k := w] ! j = Processing it)
         \<longleftrightarrow> (j = k \<and> w = Processing it) \<or> (j \<noteq> k \<and> ws ! j = Processing it)"
  using assms by (cases "j = k") simp_all

lemma upd_Exited:
  assumes "j < length ws"
  shows "(ws[k := w] ! j = Exited) \<longleftrightarrow> (j = k \<and> w = Exited) \<or> (j \<noteq> k \<and> ws ! j = Exited)"
  using assms by (cases "j = k") simp_all

lemmas inv_parts = inv_queue_def inv_workers_def inv_distinct_def inv_results_def
  inv_cover_def inv_file_def inv_phase_def popped_def wordAt_def

lemma inv_init: "writerInvariant prm (WordWriter_ctor prm)"
  by (simp add: writerInvariant_def inv_parts WordWriter_ctor_def
      expectedFile_def File_write_def)

lemma invD:
  assumes "writerInvariant prm s"
  shows "inv_queue prm s" "inv_workers s" "inv_distinct s" "inv_results prm s"
    "inv_cover s" "inv_file prm s" "inv_phase s"
  using assms by (simp_all add: writerInvariant_def)

lemma inv_Call:
  assumes "writerInvariant prm s" and "step prm s (Call word isExternal) = Some t"
  shows "writerInvariant prm t"
proof -
  let ?n = "length (underlyingWordWriter' s)"
  from assms(2) have en: "caller s = Accepting"
    and t: "t = s\<lparr> underlyingWordWriter' := underlyingWordWriter' s @ [(word, isExternal)],
                   work_queue := work_queue s @ [WorkItem ?n word],
                   returned := returned s @ [?n] \<rparr>"
    by (auto simp: Let_def split: if_splits)
  have fields: "underlyingWordWriter' t = underlyingWordWriter' s @ [(word, isExternal)]"
    "work_queue t = work_queue s @ [WorkItem ?n word]" "returned t = returned s @ [?n]"
    "workers t = workers s" "results t = results s" "writer_next t = writer_next s"
    "writer t = writer s" "caller t = caller s"
    "done_processing t = done_processing s" "work_queue_done t = work_queue_done s"
    "writerGeoInfoFile' t = writerGeoInfoFile' s"
    by (simp_all add: t)
  note i = invD[OF assms(1)]
  have len: "length (work_queue s) \<le> ?n" using i(1) by (simp add: inv_queue_def)
  have pop: "popped t = popped s" using len by (simp add: fields popped_def)
  have pn: "popped s \<le> ?n" by (simp add: popped_def)
  have wa: "\<And>i. i < ?n \<Longrightarrow> wordAt t i = wordAt s i"
    by (simp add: fields wordAt_def nth_append)
  have wn: "wordAt t ?n = word" by (simp add: fields wordAt_def)
  have m: "map (\<lambda>i. WorkItem i (wordAt t i)) [popped s..<?n]
           = map (\<lambda>i. WorkItem i (wordAt s i)) [popped s..<?n]"
    using wa by simp
  have "work_queue t = map (\<lambda>i. WorkItem i (wordAt t i)) [popped s..<Suc ?n]"
    using i(1) pn by (simp add: inv_queue_def fields(2) m wn)
  then have q': "inv_queue prm t"
    using i(1) pn by (simp add: inv_queue_def pop fields)
  have w': "inv_workers t"
    unfolding inv_workers_def pop fields
  proof (intro allI impI)
    fix k item assume "k < length (workers s)" "workers s ! k = Processing item"
    with i(2) have *: "writer_next s \<le> item_index item \<and> item_index item < popped s
        \<and> item_data item = wordAt s (item_index item)
        \<and> map_of (results s) (item_index item) = None"
      unfolding inv_workers_def by blast
    then have "item_index item < ?n" using pn by simp
    then show "writer_next s \<le> item_index item \<and> item_index item < popped s
        \<and> item_data item = wordAt t (item_index item)
        \<and> map_of (results s) (item_index item) = None"
      using * wa by simp
  qed
  have d': "inv_distinct t" using i(3) unfolding inv_distinct_def fields .
  have r': "inv_results prm t"
    unfolding inv_results_def pop fields
  proof (intro allI impI)
    fix i r' assume "map_of (results s) i = Some r'"
    with \<open>inv_results prm s\<close> have *: "writer_next s \<le> i \<and> i < popped s
        \<and> r' = Result i (fromWktLiteral prm (wordAt s i))"
      unfolding inv_results_def by blast
    then have "i < ?n" using pn by simp
    then show "writer_next s \<le> i \<and> i < popped s
        \<and> r' = Result i (fromWktLiteral prm (wordAt t i))"
      using * wa by simp
  qed
  have c': "inv_cover t" using i(5) unfolding inv_cover_def pop fields .
  have "writer_next s \<le> ?n" using i(1) pn by (simp add: inv_queue_def)
  then have f': "inv_file prm t"
    using i(6) by (simp add: inv_file_def fields)
  have p': "inv_phase t" using i(7) en unfolding inv_phase_def fields by auto
  show ?thesis using q' w' d' r' c' f' p' by (simp add: writerInvariant_def)
qed

lemma inv_FinishClose:
  assumes "writerInvariant prm s" and "step prm s FinishClose = Some t"
  shows "writerInvariant prm t"
proof -
  from assms(2) have en: "caller s = Accepting"
    and t: "t = s\<lparr> work_queue_done := True, caller := JoiningWorkers \<rparr>"
    by (auto split: if_splits)
  note i = invD[OF assms(1)]
  have "inv_queue prm t" using i(1) by (simp add: inv_parts t)
  moreover have "inv_workers t" using i(2) by (simp add: inv_parts t)
  moreover have "inv_distinct t" using i(3) by (simp add: inv_parts t)
  moreover have "inv_results prm t" using i(4) by (simp add: inv_parts t)
  moreover have "inv_cover t" using i(5) by (simp add: inv_parts t)
  moreover have "inv_file prm t" using i(6) by (simp add: inv_parts t)
  moreover have "inv_phase t" using i(7) en by (auto simp: inv_phase_def t)
  ultimately show ?thesis by (simp add: writerInvariant_def)
qed

lemma inv_FinishJoinWorkers:
  assumes "writerInvariant prm s" and "step prm s FinishJoinWorkers = Some t"
  shows "writerInvariant prm t"
proof -
  from assms(2) have en: "caller s = JoiningWorkers" "list_all (\<lambda>w. w = Exited) (workers s)"
    and t: "t = s\<lparr> done_processing := True, caller := NotifyingWriter \<rparr>"
    by (auto split: if_splits)
  note i = invD[OF assms(1)]
  have "inv_queue prm t" using i(1) by (simp add: inv_parts t)
  moreover have "inv_workers t" using i(2) by (simp add: inv_parts t)
  moreover have "inv_distinct t" using i(3) by (simp add: inv_parts t)
  moreover have "inv_results prm t" using i(4) by (simp add: inv_parts t)
  moreover have "inv_cover t" using i(5) by (simp add: inv_parts t)
  moreover have "inv_file prm t" using i(6) by (simp add: inv_parts t)
  moreover have "inv_phase t" using i(7) en by (auto simp: inv_phase_def t list_all_length)
  ultimately show ?thesis by (simp add: writerInvariant_def)
qed

lemma inv_FinishJoinWriter:
  assumes "writerInvariant prm s" and "step prm s FinishJoinWriter = Some t"
  shows "writerInvariant prm t"
proof -
  from assms(2) have en: "caller s = JoiningWriter" "writer s = WriterExited"
    and t: "t = s\<lparr> caller := Finished \<rparr>"
    by (auto split: if_splits)
  note i = invD[OF assms(1)]
  have "inv_queue prm t" using i(1) by (simp add: inv_parts t)
  moreover have "inv_workers t" using i(2) by (simp add: inv_parts t)
  moreover have "inv_distinct t" using i(3) by (simp add: inv_parts t)
  moreover have "inv_results prm t" using i(4) by (simp add: inv_parts t)
  moreover have "inv_cover t" using i(5) by (simp add: inv_parts t)
  moreover have "inv_file prm t" using i(6) by (simp add: inv_parts t)
  moreover have "inv_phase t" using i(7) en by (auto simp: inv_phase_def t)
  ultimately show ?thesis by (simp add: writerInvariant_def)
qed

lemma inv_WriterLock:
  assumes "writerInvariant prm s" and "step prm s WriterLock = Some t"
  shows "writerInvariant prm t"
proof -
  from assms(2) have en: "writer s = WriterStarting \<or> writer s = WriterNotified"
    and t: "t = s\<lparr> writer := WriterLocked \<rparr>"
    by (auto split: if_splits)
  note i = invD[OF assms(1)]
  have "inv_queue prm t" using i(1) by (simp add: inv_parts t)
  moreover have "inv_workers t" using i(2) by (simp add: inv_parts t)
  moreover have "inv_distinct t" using i(3) by (simp add: inv_parts t)
  moreover have "inv_results prm t" using i(4) by (simp add: inv_parts t)
  moreover have "inv_cover t" using i(5) by (simp add: inv_parts t)
  moreover have "inv_file prm t" using i(6) by (simp add: inv_parts t)
  moreover have "inv_phase t" using i(7) en by (auto simp: inv_phase_def t)
  ultimately show ?thesis by (simp add: writerInvariant_def)
qed

lemma inv_WriterSeesNothing:
  assumes "writerInvariant prm s" and "step prm s WriterSeesNothing = Some t"
  shows "writerInvariant prm t"
proof -
  from assms(2) have en: "writer s = WriterLocked"
    and t: "t = s\<lparr> writer := WriterAboutToSleep \<rparr>"
    by (auto split: if_splits)
  note i = invD[OF assms(1)]
  have "inv_queue prm t" using i(1) by (simp add: inv_parts t)
  moreover have "inv_workers t" using i(2) by (simp add: inv_parts t)
  moreover have "inv_distinct t" using i(3) by (simp add: inv_parts t)
  moreover have "inv_results prm t" using i(4) by (simp add: inv_parts t)
  moreover have "inv_cover t" using i(5) by (simp add: inv_parts t)
  moreover have "inv_file prm t" using i(6) by (simp add: inv_parts t)
  moreover have "inv_phase t" using i(7) en by (auto simp: inv_phase_def t)
  ultimately show ?thesis by (simp add: writerInvariant_def)
qed

lemma inv_WriterSleep:
  assumes "writerInvariant prm s" and "step prm s WriterSleep = Some t"
  shows "writerInvariant prm t"
proof -
  from assms(2) have en: "writer s = WriterAboutToSleep"
    and t: "t = s\<lparr> writer := WriterSleeping \<rparr>"
    by (auto split: if_splits)
  note i = invD[OF assms(1)]
  have "inv_queue prm t" using i(1) by (simp add: inv_parts t)
  moreover have "inv_workers t" using i(2) by (simp add: inv_parts t)
  moreover have "inv_distinct t" using i(3) by (simp add: inv_parts t)
  moreover have "inv_results prm t" using i(4) by (simp add: inv_parts t)
  moreover have "inv_cover t" using i(5) by (simp add: inv_parts t)
  moreover have "inv_file prm t" using i(6) by (simp add: inv_parts t)
  moreover have "inv_phase t" using i(7) en by (auto simp: inv_phase_def t)
  ultimately show ?thesis by (simp add: writerInvariant_def)
qed

lemma inv_FinishNotify:
  assumes "writerInvariant prm s" and "step prm s FinishNotify = Some t"
  shows "writerInvariant prm t"
proof -
  from assms(2) have en: "caller s = NotifyingWriter"
    and t: "t = s\<lparr> writer := notify (writer s), caller := JoiningWriter \<rparr>"
    by (auto split: if_splits)
  note i = invD[OF assms(1)]
  have "inv_queue prm t" using i(1) by (simp add: inv_parts t)
  moreover have "inv_workers t" using i(2) by (simp add: inv_parts t)
  moreover have "inv_distinct t" using i(3) by (simp add: inv_parts t)
  moreover have "inv_results prm t" using i(4) by (simp add: inv_parts t)
  moreover have "inv_cover t" using i(5) by (simp add: inv_parts t)
  moreover have "inv_file prm t" using i(6) by (simp add: inv_parts t)
  moreover have "inv_phase t" using i(7) en by (auto simp: inv_phase_def t notify_def)
  ultimately show ?thesis by (simp add: writerInvariant_def)
qed

lemma inv_WorkerExit:
  assumes "writerInvariant prm s" and "step prm s (WorkerExit k) = Some t"
  shows "writerInvariant prm t"
proof -
  from assms(2) have en: "k < length (workers s)" "workers s ! k = Waiting"
      "work_queue_done s" "work_queue s = []"
    and t: "t = s\<lparr> workers := (workers s)[k := Exited] \<rparr>"
    by (auto split: if_splits)
  note i = invD[OF assms(1)]
  have nth: "\<And>j item. j < length (workers s) \<Longrightarrow>
      ((workers s)[k := Exited] ! j = Processing item) = (workers s ! j = Processing item)"
    using en by (auto simp: upd_Processing)
  have "inv_queue prm t" using i(1) by (simp add: inv_parts t)
  moreover have "inv_workers t" using i(2) unfolding inv_workers_def popped_def wordAt_def
    by (simp add: t nth)
  moreover have "inv_distinct t" using i(3) unfolding inv_distinct_def
    by (simp add: t nth)
  moreover have "inv_results prm t" using i(4) by (simp add: inv_parts t)
  moreover have "inv_cover t" using i(5) unfolding inv_cover_def popped_def
    by (simp add: t nth cong: conj_cong)
  moreover have "inv_file prm t" using i(6) by (simp add: inv_parts t)
  moreover have "inv_phase t" using i(7) en by (auto simp: inv_phase_def t upd_Exited)
  ultimately show ?thesis by (simp add: writerInvariant_def)
qed

lemma inv_WriterExit:
  assumes "0 < num_threads prm"
    and "writerInvariant prm s" and "step prm s WriterExit = Some t"
  shows "writerInvariant prm t"
proof -
  from assms(3) have en: "writer s = WriterLocked" "done_processing s" "results s = []"
    and t: "t = s\<lparr> writer := WriterExited \<rparr>"
    by (auto split: if_splits)
  note i = invD[OF assms(2)]
  have all: "\<And>j. j < length (workers s) \<Longrightarrow> workers s ! j = Exited"
    using i(7) en by (simp add: inv_phase_def)
  have "0 < length (workers s)" using i(1) assms(1) by (simp add: inv_queue_def)
  then have "workers s ! 0 = Exited" "0 < length (workers s)" using all by simp_all
  then have "work_queue s = []" using i(7) unfolding inv_phase_def by blast
  then have pop: "popped s = length (underlyingWordWriter' s)" by (simp add: popped_def)
  have "\<not> writer_next s < popped s"
  proof
    assume "writer_next s < popped s"
    with i(5) have "map_of (results s) (writer_next s) \<noteq> None
        \<or> (\<exists>k item. k < length (workers s) \<and> workers s ! k = Processing item
                    \<and> item_index item = writer_next s)"
      unfolding inv_cover_def by simp
    then show False using en all by auto
  qed
  then have nx: "writer_next s = length (underlyingWordWriter' s)"
    using i(1) pop by (simp add: inv_queue_def)
  have "inv_queue prm t" using i(1) by (simp add: inv_parts t)
  moreover have "inv_workers t" using i(2) by (simp add: inv_parts t)
  moreover have "inv_distinct t" using i(3) by (simp add: inv_parts t)
  moreover have "inv_results prm t" using i(4) by (simp add: inv_parts t)
  moreover have "inv_cover t" using i(5) by (simp add: inv_parts t)
  moreover have "inv_file prm t" using i(6) by (simp add: inv_parts t)
  moreover have "inv_phase t" using i(7) en nx by (auto simp: inv_phase_def t)
  ultimately show ?thesis by (simp add: writerInvariant_def)
qed

lemma inv_WorkerPop:
  assumes "writerInvariant prm s" and "step prm s (WorkerPop k) = Some t"
  shows "writerInvariant prm t"
proof -
  let ?n = "length (underlyingWordWriter' s)"
  from assms(2) obtain item rest where en: "k < length (workers s)" "workers s ! k = Waiting"
      "work_queue s = item # rest"
    and t: "t = s\<lparr> work_queue := rest, workers := (workers s)[k := Processing item] \<rparr>"
    by (auto split: if_splits list.splits)
  note i = invD[OF assms(1)]
  have len: "length (work_queue s) \<le> ?n" and nx: "writer_next s \<le> popped s"
    and wq: "work_queue s = map (\<lambda>i. WorkItem i (wordAt s i)) [popped s..<?n]"
    using i(1) by (simp_all add: inv_queue_def)
  have lt: "popped s < ?n" using en(3) len by (simp add: popped_def)
  have pop: "popped t = Suc (popped s)" using en(3) len by (simp add: popped_def t)
  have wat: "wordAt t = wordAt s" by (rule ext) (simp add: wordAt_def t)
  have "item # rest = WorkItem (popped s) (wordAt s (popped s))
          # map (\<lambda>i. WorkItem i (wordAt s i)) [Suc (popped s)..<?n]"
    using wq lt en(3) by (simp add: upt_conv_Cons)
  then have item: "item = WorkItem (popped s) (wordAt s (popped s))"
    and rest: "rest = map (\<lambda>i. WorkItem i (wordAt s i)) [Suc (popped s)..<?n]"
    by simp_all
  have fields: "underlyingWordWriter' t = underlyingWordWriter' s" "work_queue t = rest"
    "returned t = returned s" "workers t = (workers s)[k := Processing item]"
    "results t = results s" "writer_next t = writer_next s"
    "writer t = writer s" "caller t = caller s"
    "done_processing t = done_processing s" "work_queue_done t = work_queue_done s"
    "writerGeoInfoFile' t = writerGeoInfoFile' s"
    by (simp_all add: t)
  have none: "map_of (results s) (popped s) = None"
  proof (cases "map_of (results s) (popped s)")
    case (Some r')
    with i(4) have "popped s < popped s" unfolding inv_results_def by blast
    then show ?thesis by simp
  qed simp
  have old: "\<And>j it. j < length (workers s) \<Longrightarrow> workers s ! j = Processing it \<Longrightarrow>
      writer_next s \<le> item_index it \<and> item_index it < popped s
        \<and> item_data it = wordAt s (item_index it)
        \<and> map_of (results s) (item_index it) = None"
    using i(2) unfolding inv_workers_def by blast
  have upd: "\<And>j it. j < length (workers s) \<Longrightarrow>
      ((workers s)[k := Processing item] ! j = Processing it)
      \<longleftrightarrow> (j = k \<and> it = item) \<or> (j \<noteq> k \<and> workers s ! j = Processing it)"
    by (auto simp: upd_Processing)
  have q': "inv_queue prm t"
    using i(1) lt rest unfolding inv_queue_def pop wat fields by simp
  have w': "inv_workers t"
    unfolding inv_workers_def pop wat fields
  proof (intro allI impI)
    fix j it
    assume j: "j < length ((workers s)[k := Processing item])"
      and h: "(workers s)[k := Processing item] ! j = Processing it"
    from j h upd consider "j = k" "it = item" | "j \<noteq> k" "workers s ! j = Processing it"
      by auto
    then show "writer_next s \<le> item_index it \<and> item_index it < Suc (popped s)
        \<and> item_data it = wordAt s (item_index it)
        \<and> map_of (results s) (item_index it) = None"
    proof cases
      case 1 then show ?thesis using item nx none by simp
    next
      case 2 with old[of j it] j show ?thesis by simp
    qed
  qed
  have d': "inv_distinct t"
    unfolding inv_distinct_def fields
  proof (intro allI impI)
    fix j j' it it'
    assume j: "j < length ((workers s)[k := Processing item])"
      and j': "j' < length ((workers s)[k := Processing item])"
      and h: "(workers s)[k := Processing item] ! j = Processing it"
      and h': "(workers s)[k := Processing item] ! j' = Processing it'"
      and e: "item_index it = item_index it'"
    from j h upd have a: "(j = k \<and> it = item) \<or> (j \<noteq> k \<and> workers s ! j = Processing it)"
      by auto
    from j' h' upd have b: "(j' = k \<and> it' = item) \<or> (j' \<noteq> k \<and> workers s ! j' = Processing it')"
      by auto
    have ii: "item_index item = popped s" using item by simp
    from a b show "j = j'"
    proof (elim disjE conjE)
      assume "j \<noteq> k" "workers s ! j = Processing it" "j' \<noteq> k" "workers s ! j' = Processing it'"
      then show ?thesis using i(3) j j' e unfolding inv_distinct_def by auto
    next
      assume "j = k" "it = item" "j' \<noteq> k" "workers s ! j' = Processing it'"
      then show ?thesis using old[of j' it'] j' e ii by simp
    next
      assume "j \<noteq> k" "workers s ! j = Processing it" "j' = k" "it' = item"
      then show ?thesis using old[of j it] j e ii by simp
    qed simp
  qed
  have r': "inv_results prm t"
    using i(4) unfolding inv_results_def pop wat fields by (meson less_Suc_eq)
  have c': "inv_cover t"
    unfolding inv_cover_def pop fields
  proof (intro allI impI)
    fix i' assume i': "writer_next s \<le> i'" "i' < Suc (popped s)"
    show "map_of (results s) i' \<noteq> None
        \<or> (\<exists>ka it. ka < length ((workers s)[k := Processing item])
                    \<and> (workers s)[k := Processing item] ! ka = Processing it
                    \<and> item_index it = i')"
    proof (cases "i' = popped s")
      case True
      then show ?thesis using en(1) item by (intro disjI2 exI[of _ k] exI[of _ item]) simp
    next
      case False
      then have "i' < popped s" using i' by simp
      with i(5) i' have "map_of (results s) i' \<noteq> None
        \<or> (\<exists>ka it. ka < length (workers s) \<and> workers s ! ka = Processing it
                    \<and> item_index it = i')"
        unfolding inv_cover_def by simp
      then show ?thesis
      proof
        assume "map_of (results s) i' \<noteq> None" then show ?thesis by simp
      next
        assume "\<exists>ka it. ka < length (workers s) \<and> workers s ! ka = Processing it
                    \<and> item_index it = i'"
        then obtain ka it where ka: "ka < length (workers s)" "workers s ! ka = Processing it"
          "item_index it = i'" by blast
        then have "ka \<noteq> k" using en(2) by auto
        then show ?thesis using ka by (intro disjI2 exI[of _ ka] exI[of _ it]) simp
      qed
    qed
  qed
  have f': "inv_file prm t" using i(6) by (simp add: inv_file_def fields)
  have ndone: "\<not> done_processing s" using i(7) en(1,2) unfolding inv_phase_def by auto
  have noex: "\<And>j. j < length (workers s) \<Longrightarrow> workers s ! j \<noteq> Exited"
    using i(7) en(3) unfolding inv_phase_def by auto
  have p': "inv_phase t"
    using i(7) ndone noex unfolding inv_phase_def fields by (auto simp: upd_Exited)
  show ?thesis using q' w' d' r' c' f' p' by (simp add: writerInvariant_def)
qed

lemma inv_WorkerPublish:
  assumes "writerInvariant prm s" and "step prm s (WorkerPublish k) = Some t"
  shows "writerInvariant prm t"
proof -
  from assms(2) obtain item where en: "k < length (workers s)" "workers s ! k = Processing item"
    and t: "t = s\<lparr> results := AList.update (item_index item) (process prm item) (results s),
                   workers := (workers s)[k := Waiting], writer := notify (writer s) \<rparr>"
    by (auto simp: Let_def process_def split: if_splits WorkerThread.splits)
  note i = invD[OF assms(1)]
  have pop: "popped t = popped s" by (simp add: popped_def t)
  have wat: "wordAt t = wordAt s" by (rule ext) (simp add: wordAt_def t)
  have fields: "underlyingWordWriter' t = underlyingWordWriter' s" "work_queue t = work_queue s"
    "returned t = returned s" "workers t = (workers s)[k := Waiting]"
    "map_of (results t) = (map_of (results s))(item_index item \<mapsto> process prm item)"
    "writer_next t = writer_next s"
    "writer t = notify (writer s)" "caller t = caller s"
    "done_processing t = done_processing s" "work_queue_done t = work_queue_done s"
    "writerGeoInfoFile' t = writerGeoInfoFile' s"
    by (simp_all add: t update_conv')
  have old: "\<And>j it. j < length (workers s) \<Longrightarrow> workers s ! j = Processing it \<Longrightarrow>
      writer_next s \<le> item_index it \<and> item_index it < popped s
        \<and> item_data it = wordAt s (item_index it)
        \<and> map_of (results s) (item_index it) = None"
    using i(2) unfolding inv_workers_def by blast
  note mine = old[OF en]
  have other: "\<And>j it. j < length (workers s) \<Longrightarrow> j \<noteq> k \<Longrightarrow> workers s ! j = Processing it
      \<Longrightarrow> item_index it \<noteq> item_index item"
    using i(3) en unfolding inv_distinct_def by blast
  have upd: "\<And>j it. j < length (workers s) \<Longrightarrow>
      ((workers s)[k := Waiting] ! j = Processing it)
      \<longleftrightarrow> (j \<noteq> k \<and> workers s ! j = Processing it)"
    by (auto simp: upd_Processing)
  have q': "inv_queue prm t"
    using i(1) unfolding inv_queue_def pop wat fields by simp
  have w': "inv_workers t"
    unfolding inv_workers_def pop wat fields
  proof (intro allI impI)
    fix j it
    assume j: "j < length ((workers s)[k := Waiting])"
      and h: "(workers s)[k := Waiting] ! j = Processing it"
    from j h upd have jk: "j \<noteq> k" and hs: "workers s ! j = Processing it" by auto
    have js: "j < length (workers s)" using j by simp
    from old[OF js hs] other[OF js jk hs]
    show "writer_next s \<le> item_index it \<and> item_index it < popped s
        \<and> item_data it = wordAt s (item_index it)
        \<and> ((map_of (results s))(item_index item \<mapsto> process prm item)) (item_index it) = None"
      by simp
  qed
  have d': "inv_distinct t"
    unfolding inv_distinct_def fields
  proof (intro allI impI)
    fix j j' it it'
    assume j: "j < length ((workers s)[k := Waiting])"
      and j': "j' < length ((workers s)[k := Waiting])"
      and h: "(workers s)[k := Waiting] ! j = Processing it"
      and h': "(workers s)[k := Waiting] ! j' = Processing it'"
      and e: "item_index it = item_index it'"
    from j h upd have a: "workers s ! j = Processing it" by auto
    from j' h' upd have b: "workers s ! j' = Processing it'" by auto
    show "j = j'" using i(3) a b j j' e unfolding inv_distinct_def by auto
  qed
  have r': "inv_results prm t"
    unfolding inv_results_def pop wat fields
  proof (intro allI impI)
    fix i' r'
    assume h: "((map_of (results s))(item_index item \<mapsto> process prm item)) i' = Some r'"
    show "writer_next s \<le> i' \<and> i' < popped s \<and> r' = Result i' (fromWktLiteral prm (wordAt s i'))"
    proof (cases "i' = item_index item")
      case True
      then have "r' = process prm item" using h by simp
      then show ?thesis using True mine by (simp add: process_def)
    next
      case False
      then have "map_of (results s) i' = Some r'" using h by simp
      then show ?thesis using i(4) unfolding inv_results_def by blast
    qed
  qed
  have c': "inv_cover t"
    unfolding inv_cover_def pop fields
  proof (intro allI impI)
    fix i' assume i': "writer_next s \<le> i'" "i' < popped s"
    show "((map_of (results s))(item_index item \<mapsto> process prm item)) i' \<noteq> None
        \<or> (\<exists>ka it. ka < length ((workers s)[k := Waiting])
                    \<and> (workers s)[k := Waiting] ! ka = Processing it
                    \<and> item_index it = i')"
    proof (cases "i' = item_index item")
      case True then show ?thesis by simp
    next
      case False
      from i(5) i' have "map_of (results s) i' \<noteq> None
        \<or> (\<exists>ka it. ka < length (workers s) \<and> workers s ! ka = Processing it
                    \<and> item_index it = i')"
        unfolding inv_cover_def by simp
      then show ?thesis
      proof
        assume "map_of (results s) i' \<noteq> None" then show ?thesis using False by simp
      next
        assume "\<exists>ka it. ka < length (workers s) \<and> workers s ! ka = Processing it
                    \<and> item_index it = i'"
        then obtain ka it where ka: "ka < length (workers s)" "workers s ! ka = Processing it"
          "item_index it = i'" by blast
        then have "ka \<noteq> k" using en(2) False by auto
        then show ?thesis using ka by (intro disjI2 exI[of _ ka] exI[of _ it]) simp
      qed
    qed
  qed
  have f': "inv_file prm t" using i(6) by (simp add: inv_file_def fields)
  have ndone: "\<not> done_processing s" using i(7) en unfolding inv_phase_def by auto
  have noex: "\<And>j. j < length (workers s) \<Longrightarrow>
      ((workers s)[k := Waiting] ! j = Exited) = (workers s ! j = Exited)"
    using en by (auto simp: upd_Exited)
  have p': "inv_phase t"
    using i(7) ndone unfolding inv_phase_def fields
    by (auto simp: noex notify_def cong: conj_cong)
  show ?thesis using q' w' d' r' c' f' p' by (simp add: writerInvariant_def)
qed


lemma expectedFile_snoc:
  "expectedFile prm (ws @ [w]) = expectedFile prm ws @ recordOf prm (fromWktLiteral prm w)"
  by (simp add: expectedFile_def)

lemma inv_WriterWrite:
  assumes "writerInvariant prm s" and "step prm s WriterWrite = Some t"
  shows "writerInvariant prm t"
proof -
  let ?n = "length (underlyingWordWriter' s)"
  let ?x = "writer_next s"
  from assms(2) obtain r where en: "writer s = WriterLocked" "map_of (results s) ?x = Some r"
    and t: "t = (writeResult prm (result_output r) s)
                  \<lparr> results := AList.delete ?x (results s), writer_next := ?x + 1 \<rparr>"
    by (auto split: if_splits option.splits)
  note i = invD[OF assms(1)]
  have rr: "?x < popped s" "r = Result ?x (fromWktLiteral prm (wordAt s ?x))"
    using i(4) en(2) unfolding inv_results_def by blast+
  have pn: "popped s \<le> ?n" by (simp add: popped_def)
  have fields: "underlyingWordWriter' t = underlyingWordWriter' s" "work_queue t = work_queue s"
    "returned t = returned s" "workers t = workers s"
    "map_of (results t) = (map_of (results s))(?x := None)"
    "writer_next t = Suc ?x"
    "writer t = writer s" "caller t = caller s"
    "done_processing t = done_processing s" "work_queue_done t = work_queue_done s"
    "writerGeoInfoFile' t = writerGeoInfoFile' s @ recordOf prm (result_output r)"
    by (simp_all add: t writeResult_def recordOf_def File_write_def delete_conv'
        split: option.splits)
  have pop: "popped t = popped s" by (simp add: popped_def fields)
  have wat: "wordAt t = wordAt s" by (rule ext) (simp add: wordAt_def fields)
  have old: "\<And>j it. j < length (workers s) \<Longrightarrow> workers s ! j = Processing it \<Longrightarrow>
      writer_next s \<le> item_index it \<and> item_index it < popped s
        \<and> item_data it = wordAt s (item_index it)
        \<and> map_of (results s) (item_index it) = None"
    using i(2) unfolding inv_workers_def by blast
  have q': "inv_queue prm t"
    using i(1) rr(1) unfolding inv_queue_def pop wat fields by simp
  have w': "inv_workers t"
    unfolding inv_workers_def pop wat fields
  proof (intro allI impI)
    fix j it
    assume j: "j < length (workers s)" and h: "workers s ! j = Processing it"
    from old[OF j h] en(2) have "item_index it \<noteq> ?x" by auto
    with old[OF j h]
    show "Suc ?x \<le> item_index it \<and> item_index it < popped s
        \<and> item_data it = wordAt s (item_index it)
        \<and> ((map_of (results s))(?x := None)) (item_index it) = None"
      by simp
  qed
  have d': "inv_distinct t" using i(3) unfolding inv_distinct_def fields .
  have r': "inv_results prm t"
    unfolding inv_results_def pop wat fields
  proof (intro allI impI)
    fix i' r'
    assume h: "((map_of (results s))(?x := None)) i' = Some r'"
    then have ne: "i' \<noteq> ?x" and hs: "map_of (results s) i' = Some r'"
      by (auto split: if_splits)
    from i(4) hs have "?x \<le> i' \<and> i' < popped s
        \<and> r' = Result i' (fromWktLiteral prm (wordAt s i'))"
      unfolding inv_results_def by blast
    then show "Suc ?x \<le> i' \<and> i' < popped s
        \<and> r' = Result i' (fromWktLiteral prm (wordAt s i'))"
      using ne by simp
  qed
  have c': "inv_cover t"
    unfolding inv_cover_def pop fields
  proof (intro allI impI)
    fix i' assume i': "Suc ?x \<le> i'" "i' < popped s"
    with i(5) have "map_of (results s) i' \<noteq> None
        \<or> (\<exists>ka it. ka < length (workers s) \<and> workers s ! ka = Processing it
                    \<and> item_index it = i')"
      unfolding inv_cover_def by simp
    then show "((map_of (results s))(?x := None)) i' \<noteq> None
        \<or> (\<exists>ka it. ka < length (workers s) \<and> workers s ! ka = Processing it
                    \<and> item_index it = i')"
      using i' by auto
  qed
  have xn: "?x < length (map fst (underlyingWordWriter' s))" using rr(1) pn by simp
  have "take (Suc ?x) (map fst (underlyingWordWriter' s))
        = take ?x (map fst (underlyingWordWriter' s)) @ [wordAt s ?x]"
    using xn by (simp add: take_Suc_conv_app_nth wordAt_def)
  then have f': "inv_file prm t"
    using i(6) rr(2) by (simp add: inv_file_def fields expectedFile_snoc)
  have p': "inv_phase t"
    using i(7) en(1) unfolding inv_phase_def fields by auto
  show ?thesis using q' w' d' r' c' f' p' by (simp add: writerInvariant_def)
qed

lemma step_preserves:
  assumes "0 < num_threads prm" and "writerInvariant prm s" and "step prm s e = Some t"
  shows "writerInvariant prm t"
proof (cases e)
  case (Call word isExternal)
  then show ?thesis using assms inv_Call by blast
next
  case (WorkerPop k) then show ?thesis using assms inv_WorkerPop by blast
next
  case (WorkerPublish k) then show ?thesis using assms inv_WorkerPublish by blast
next
  case (WorkerExit k) then show ?thesis using assms inv_WorkerExit by blast
next
  case WriterWrite then show ?thesis using assms inv_WriterWrite by blast
next
  case WriterLock then show ?thesis using assms inv_WriterLock by blast
next
  case WriterSeesNothing then show ?thesis using assms inv_WriterSeesNothing by blast
next
  case WriterSleep then show ?thesis using assms inv_WriterSleep by blast
next
  case FinishNotify then show ?thesis using assms inv_FinishNotify by blast
next
  case WriterExit then show ?thesis using assms inv_WriterExit by blast
next
  case FinishClose then show ?thesis using assms inv_FinishClose by blast
next
  case FinishJoinWorkers then show ?thesis using assms inv_FinishJoinWorkers by blast
next
  case FinishJoinWriter then show ?thesis using assms inv_FinishJoinWriter by blast
qed

lemma run_preserves:
  assumes "0 < num_threads prm"
  shows "writerInvariant prm s \<Longrightarrow> run prm s es = Some t \<Longrightarrow> writerInvariant prm t"
proof (induction es arbitrary: s)
  case Nil then show ?case by simp
next
  case (Cons e es)
  then obtain s1 where s1: "step prm s e = Some s1" "run prm s1 es = Some t"
    by (auto split: option.splits)
  then show ?case using Cons step_preserves[OF assms] by blast
qed

lemma step_input:
  "step prm s e = Some t \<Longrightarrow> underlyingWordWriter' t = underlyingWordWriter' s @ inputOf [e]"
  by (cases e) (auto simp: Let_def writeResult_def split: if_splits list.splits option.splits WorkerThread.splits)

lemma inputOf_Cons: "inputOf (e # es) = inputOf [e] @ inputOf es"
  by (cases e) simp_all

lemma run_input:
  "run prm s es = Some t \<Longrightarrow> underlyingWordWriter' t = underlyingWordWriter' s @ inputOf es"
proof (induction es arbitrary: s)
  case Nil then show ?case by simp
next
  case (Cons e es)
  then obtain s1 where s1: "step prm s e = Some s1" "run prm s1 es = Some t"
    by (auto split: option.splits)
  from Cons.IH[OF s1(2)] step_input[OF s1(1)] show ?case
    by (subst inputOf_Cons) simp
qed

lemma version_roundtrip: "versionOfBytes (bytesOfVersion v) = v"
  unfolding bytesOfVersion_def
proof (rule bit_word_eqI)
  fix n assume n: "n < LENGTH(32)"
  let ?w = "versionOfBytes [ucast v, ucast (drop_bit 8 v), ucast (drop_bit 16 v), ucast (drop_bit 24 v)]"
  consider "n < 8" | "8 \<le> n" "n < 16" | "16 \<le> n" "n < 24" | "24 \<le> n" by linarith
  then show "bit ?w n = bit v n"
  proof cases
    case 1 then show ?thesis using n by (auto simp: bit_simps)
  next
    case 2 then show ?thesis using n by (auto simp: bit_simps)
  next
    case 3 then show ?thesis using n by (auto simp: bit_simps)
  next
    case 4 then show ?thesis using n by (auto simp: bit_simps)
  qed
qed

text \<open>A file that starts with the header of the writer opens without the version error.\<close>

lemma written_header_opens:
  assumes "files (getGeoInfoFilename filename)
           = bytesOfVersion (GEOMETRY_INFO_VERSION prm) @ records"
  shows "GeoVocabulary_open prm underlying files filename
         = Inr \<lparr> literals' = underlying filename,
                    geoInfoFile' = files (getGeoInfoFilename filename) \<rparr>"
proof -
  have "File_read (bytesOfVersion (GEOMETRY_INFO_VERSION prm) @ records) geoInfoHeader 0
        = bytesOfVersion (GEOMETRY_INFO_VERSION prm)"
    by (simp add: File_read_def geoInfoHeader_def bytesOfVersion_def)
  then have "storedVersion (files (getGeoInfoFilename filename)) = GEOMETRY_INFO_VERSION prm"
    by (simp add: storedVersion_def assms version_roundtrip)
  then show ?thesis by (simp add: GeoVocabulary_open_def Let_def)
qed

lemma length_bytesOfVersion: "length (bytesOfVersion v) = geoInfoHeader"
  by (simp add: bytesOfVersion_def geoInfoHeader_def)

lemma length_recordOf:
  assumes "geometryInfoGuarantee prm"
  shows "length (recordOf prm (fromWktLiteral prm w)) = geoInfoOffset prm"
  using assms
  by (cases "fromWktLiteral prm w")
    (auto simp: recordOf_def geometryInfoGuarantee_def invalidGeoInfoBuffer_def)

lemma drop_concat_records:
  assumes "\<And>x. length (f x) = n"
  shows "i \<le> length xs \<Longrightarrow> drop (i * n) (concat (map f xs)) = concat (map f (drop i xs))"
proof (induction xs arbitrary: i)
  case Nil then show ?case by simp
next
  case (Cons x xs)
  show ?case
  proof (cases i)
    case 0 then show ?thesis by simp
  next
    case (Suc j)
    then have "j \<le> length xs" using Cons.prems by simp
    from Cons.IH[OF this] show ?thesis using Suc assms by simp
  qed
qed

lemma recordAt_expectedFile:
  assumes "geometryInfoGuarantee prm" and "i < length ws"
  shows "recordAt prm (expectedFile prm ws) i = recordOf prm (fromWktLiteral prm (ws ! i))"
proof -
  let ?f = "\<lambda>w. recordOf prm (fromWktLiteral prm w)"
  have len: "\<And>w. length (?f w) = geoInfoOffset prm"
    using assms(1) by (rule length_recordOf)
  have "drop (geoInfoHeader + i * geoInfoOffset prm) (expectedFile prm ws)
        = drop (i * geoInfoOffset prm) (concat (map ?f ws))"
    by (simp add: expectedFile_def length_bytesOfVersion)
  also have "\<dots> = concat (map ?f (drop i ws))"
    using assms(2) by (intro drop_concat_records len) simp
  also have "\<dots> = ?f (ws ! i) @ concat (map ?f (drop (Suc i) ws))"
    using assms(2) by (simp flip: Cons_nth_drop_Suc)
  finally show ?thesis using len by (simp add: recordAt_def)
qed

lemma unat_offset:
  assumes "geoInfoHeader + unat index * geoInfoOffset prm < 2 ^ 64"
  shows "unat (of_nat geoInfoHeader + index * of_nat (geoInfoOffset prm) :: 64 word)
         = geoInfoHeader + unat index * geoInfoOffset prm"
proof -
  have "(of_nat geoInfoHeader + index * of_nat (geoInfoOffset prm) :: 64 word)
        = of_nat (geoInfoHeader + unat index * geoInfoOffset prm)"
    by simp
  then show ?thesis using assms by (simp only: unat_of_nat) simp
qed

lemma getGeoInfo_record:
  assumes "index < size' voc" and "geoInfoHeader + unat index * geoInfoOffset prm < 2 ^ 64"
    and "geoInfoHeader + (unat index + 1) * geoInfoOffset prm \<le> length (geoInfoFile' voc)"
  shows "getGeoInfo prm voc uninitialised index =
     Inr (if recordAt prm (geoInfoFile' voc) (unat index) = replicate (geoInfoOffset prm) 0
          then None
          else Some (bit_cast (recordAt prm (geoInfoFile' voc) (unat index))))"
proof -
  let ?off = "geoInfoHeader + unat index * geoInfoOffset prm"
  have "length (File_read (geoInfoFile' voc) (geoInfoOffset prm) ?off) = geoInfoOffset prm"
    using assms(3) by (simp add: File_read_def)
  then have "File_read_into (map uninitialised [0..<geoInfoOffset prm]) (geoInfoFile' voc)
               (geoInfoOffset prm) ?off
             = recordAt prm (geoInfoFile' voc) (unat index)"
    by (simp add: File_read_into_def Let_def recordAt_def File_read_def)
  then show ?thesis
    using assms(1) unat_offset[OF assms(2)]
    by (simp add: getGeoInfo_def Let_def invalidGeoInfoBuffer_def)
qed

lemma recordOf_decodes:
  assumes "geometryInfoGuarantee prm"
  shows "(if recordOf prm (fromWktLiteral prm w) = replicate (geoInfoOffset prm) 0 then None
          else Some (bit_cast (recordOf prm (fromWktLiteral prm w))))
         = fromWktLiteral prm w"
  using assms
  by (cases "fromWktLiteral prm w")
    (auto simp: recordOf_def geometryInfoGuarantee_def invalidGeoInfoBuffer_def bit_cast_def)

lemma length_expectedFile:
  assumes "geometryInfoGuarantee prm"
  shows "length (expectedFile prm ws) = geoInfoHeader + length ws * geoInfoOffset prm"
proof -
  have "length (concat (map (\<lambda>w. recordOf prm (fromWktLiteral prm w)) ws))
        = length ws * geoInfoOffset prm"
    by (induction ws) (simp_all add: length_recordOf[OF assms])
  then show ?thesis by (simp add: expectedFile_def length_bytesOfVersion)
qed

lemma getGeoInfo_expectedFile:
  assumes g: "geometryInfoGuarantee prm"
    and fl: "geoInfoFile' voc = expectedFile prm (literals' voc)"
    and i: "i < length (literals' voc)"
    and fit: "geoInfoHeader + length (literals' voc) * geoInfoOffset prm < 2 ^ 64"
  shows "getGeoInfo prm voc uninitialised (of_nat i)
         = Inr (fromWktLiteral prm (literals' voc ! i))"
proof -
  let ?n = "length (literals' voc)"
  have pos: "0 < geoInfoOffset prm" using g by (simp add: geometryInfoGuarantee_def)
  have "?n \<le> ?n * geoInfoOffset prm" using pos by simp
  then have n: "?n < 2 ^ 64" using fit by linarith
  then have ui: "unat (of_nat i :: 64 word) = i" and un: "unat (of_nat ?n :: 64 word) = ?n"
    using i by (simp_all add: unat_of_nat)
  have lt: "(of_nat i :: 64 word) < size' voc"
    using i ui un by (simp add: size'_def word_less_nat_alt)
  have "i * geoInfoOffset prm \<le> ?n * geoInfoOffset prm" using i by simp
  then have "geoInfoHeader + i * geoInfoOffset prm < 2 ^ 64" using fit by linarith
  then have off: "geoInfoHeader + unat (of_nat i :: 64 word) * geoInfoOffset prm < 2 ^ 64"
    using ui by simp
  have rec: "recordAt prm (geoInfoFile' voc) (unat (of_nat i :: 64 word))
             = recordOf prm (fromWktLiteral prm (literals' voc ! i))"
    using recordAt_expectedFile[OF g i] by (simp add: fl ui)
  have "(i + 1) * geoInfoOffset prm \<le> ?n * geoInfoOffset prm"
    using i by (intro mult_le_mono1) simp
  then have inside: "geoInfoHeader + (unat (of_nat i :: 64 word) + 1) * geoInfoOffset prm
                     \<le> length (geoInfoFile' voc)"
    by (simp only: ui fl length_expectedFile[OF g])
  show ?thesis
    by (simp only: getGeoInfo_record[OF lt off inside] rec recordOf_decodes[OF g])
qed

lemma finished_file:
  assumes "writerInvariant prm s" and "caller s = Finished"
  shows "writerGeoInfoFile' s = expectedFile prm (map fst (underlyingWordWriter' s))"
    and "returned s = [0..<length (underlyingWordWriter' s)]"
proof -
  note i = invD[OF assms(1)]
  from i(7) assms(2) have "writer_next s = length (underlyingWordWriter' s)"
    unfolding inv_phase_def by blast
  then show "writerGeoInfoFile' s = expectedFile prm (map fst (underlyingWordWriter' s))"
    using i(6) by (simp add: inv_file_def)
  show "returned s = [0..<length (underlyingWordWriter' s)]"
    using i(1) by (simp add: inv_queue_def)
qed


subsection \<open>finish can return\<close>

lemma run_append:
  "run prm s (es1 @ es2) = (case run prm s es1 of None \<Rightarrow> None | Some t \<Rightarrow> run prm t es2)"
  by (induction es1 arbitrary: s) (auto split: option.splits)

lemma inputOf_append: "inputOf (es1 @ es2) = inputOf es1 @ inputOf es2"
proof (induction es1)
  case Nil then show ?case by simp
next
  case (Cons e es1) then show ?case by (cases e) simp_all
qed

lemma inputOf_WorkerExits: "inputOf (map WorkerExit ks) = []"
  by (induction ks) simp_all

lemma inputOf_sequentialSchedule: "inputOf (sequentialSchedule n input) = input"
proof -
  have "inputOf (concat (map oneWordEvents input)) = input"
    by (induction input) (simp_all add: inputOf_append oneWordEvents_def)
  then show ?thesis
    by (simp add: sequentialSchedule_def finishEvents_def inputOf_append inputOf_WorkerExits)
qed

lemma quiescent_ctor: "quiescent prm (WordWriter_ctor prm)"
  by (simp add: quiescent_def WordWriter_ctor_def)

lemma replicate_update_same: "(replicate n x)[i := x] = replicate n x"
  by (induction n arbitrary: i) (auto split: nat.split)

lemma quiescent_oneWord:
  assumes "0 < num_threads prm" and "quiescent prm s"
  shows "\<exists>t. run prm s (oneWordEvents w) = Some t \<and> quiescent prm t"
  using assms
  by (cases "fromWktLiteral prm (fst w)")
     (auto simp: oneWordEvents_def quiescent_def queue_capacity_def Let_def process_def
       writeResult_def replicate_update_same notify_def)

lemma quiescent_words:
  assumes "0 < num_threads prm"
  shows "quiescent prm s \<Longrightarrow>
         \<exists>t. run prm s (concat (map oneWordEvents input)) = Some t \<and> quiescent prm t"
proof (induction input arbitrary: s)
  case Nil then show ?case by simp
next
  case (Cons w input)
  from quiescent_oneWord[OF assms Cons.prems] obtain s1
    where s1: "run prm s (oneWordEvents w) = Some s1" "quiescent prm s1" by blast
  from Cons.IH[OF s1(2)] obtain t
    where "run prm s1 (concat (map oneWordEvents input)) = Some t" "quiescent prm t" by blast
  then show ?case using s1(1) by (simp add: run_append)
qed

lemma workers_exit:
  assumes "work_queue_done s" and "work_queue s = []"
    and "workers s = replicate k Exited @ replicate m Waiting"
  shows "\<exists>t. run prm s (map WorkerExit [k..<k + m]) = Some t
             \<and> t = s\<lparr> workers := replicate (k + m) Exited \<rparr>"
  using assms
proof (induction m arbitrary: s k)
  case 0 then show ?case by simp
next
  case (Suc m)
  let ?s1 = "s\<lparr> workers := replicate (Suc k) Exited @ replicate m Waiting \<rparr>"
  have w: "workers s = replicate k Exited @ Waiting # replicate m Waiting"
    using Suc.prems(3) by simp
  have k: "k < length (workers s)" "workers s ! k = Waiting"
    using w by (simp_all add: nth_append)
  have "(workers s)[k := Exited]
        = (replicate k Exited @ Waiting # replicate m Waiting)[length (replicate k Exited) := Exited]"
    by (simp add: w)
  also have "\<dots> = replicate k Exited @ Exited # replicate m Waiting"
    by (rule list_update_length)
  also have "\<dots> = replicate (Suc k) Exited @ replicate m Waiting"
    by (simp add: replicate_app_Cons_same)
  finally have upd: "(workers s)[k := Exited] = replicate (Suc k) Exited @ replicate m Waiting" .
  have "step prm s (WorkerExit k) = Some (s\<lparr> workers := (workers s)[k := Exited] \<rparr>)"
    using k Suc.prems(1,2) by simp
  then have st: "step prm s (WorkerExit k) = Some ?s1"
    unfolding upd .
  have "\<exists>t. run prm ?s1 (map WorkerExit [Suc k..<Suc k + m]) = Some t
             \<and> t = ?s1\<lparr> workers := replicate (Suc k + m) Exited \<rparr>"
    using Suc.prems by (intro Suc.IH) simp_all
  then obtain t where ih: "run prm ?s1 (map WorkerExit [Suc k..<Suc k + m]) = Some t"
    "t = ?s1\<lparr> workers := replicate (Suc k + m) Exited \<rparr>" by blast
  have e: "[k..<k + Suc m] = k # [Suc k..<Suc k + m]" by (simp add: upt_conv_Cons)
  have "run prm s (map WorkerExit [k..<k + Suc m])
        = run prm s (WorkerExit k # map WorkerExit [Suc k..<Suc k + m])"
    by (simp only: e list.map)
  also have "\<dots> = run prm ?s1 (map WorkerExit [Suc k..<Suc k + m])"
    by (simp only: run.simps st option.case)
  also have "\<dots> = Some t" by (rule ih(1))
  finally have "run prm s (map WorkerExit [k..<k + Suc m]) = Some t" .
  moreover have "t = s\<lparr> workers := replicate (k + Suc m) Exited \<rparr>"
    using ih(2) by simp
  ultimately show ?case by blast
qed

lemma quiescent_finish:
  assumes "quiescent prm s"
  shows "\<exists>t. run prm s (finishEvents (num_threads prm)) = Some t \<and> caller t = Finished"
proof -
  let ?n = "num_threads prm"
  let ?s1 = "s\<lparr> work_queue_done := True, caller := JoiningWorkers \<rparr>"
  have st1: "step prm s FinishClose = Some ?s1" using assms by (simp add: quiescent_def)
  have "\<exists>t. run prm ?s1 (map WorkerExit [0..<0 + ?n]) = Some t
             \<and> t = ?s1\<lparr> workers := replicate (0 + ?n) Exited \<rparr>"
    using assms by (intro workers_exit) (simp_all add: quiescent_def)
  then have r2: "run prm ?s1 (map WorkerExit [0..<?n])
                 = Some (?s1\<lparr> workers := replicate ?n Exited \<rparr>)"
    by simp
  have r3: "\<exists>t. run prm (?s1\<lparr> workers := replicate ?n Exited \<rparr>)
                   [FinishJoinWorkers, FinishNotify, WriterLock, WriterExit, FinishJoinWriter]
                 = Some t \<and> caller t = Finished"
    using assms by (auto simp: quiescent_def list_all_length notify_def)
  show ?thesis
    unfolding finishEvents_def using st1 r2 r3 by (simp add: run_append)
qed

lemma finish_can_return:
  assumes "0 < num_threads prm"
  shows "\<exists>s. run prm (WordWriter_ctor prm) (sequentialSchedule (num_threads prm) input) = Some s
             \<and> caller s = Finished"
proof -
  from quiescent_words[OF assms quiescent_ctor] obtain s1
    where s1: "run prm (WordWriter_ctor prm) (concat (map oneWordEvents input)) = Some s1"
      "quiescent prm s1" by blast
  from quiescent_finish[OF s1(2)] obtain t
    where "run prm s1 (finishEvents (num_threads prm)) = Some t" "caller t = Finished" by blast
  then show ?thesis using s1(1) by (simp add: sequentialSchedule_def run_append)
qed

section \<open>The example run and the test's names\<close>

lemma replicate_two: "replicate 2 x = [x, x]"
  by (simp add: numeral_2_eq_2)

lemma example_ctor:
  "WordWriter_ctor exampleParameters =
     \<lparr> underlyingWordWriter' = [], writerGeoInfoFile' = [2, 0, 0, 0],
       numInvalidGeometries' = 0, numInvalidPolygonArea' = 0, work_queue = [],
       work_queue_done = False, results = [], done_processing = False,
       workers = [Waiting, Waiting], writer_next = 0, writer = WriterStarting,
       caller = Accepting, returned = [] \<rparr>"
  by (simp add: WordWriter_ctor_def exampleParameters_def File_write_def bytesOfVersion_def
      replicate_two)

lemma exampleSchedule_runs:
  "run exampleParameters (WordWriter_ctor exampleParameters) exampleSchedule = Some exampleWritten"
  unfolding example_ctor
  by (simp add: exampleSchedule_def exampleWritten_def exampleParameters_def
      Let_def process_def writeResult_def queue_capacity_def File_write_def
      invalidGeoInfoBuffer_def replicate_two notify_def)

lemma exampleParameters_guarantee: "geometryInfoGuarantee exampleParameters"
  by (auto simp: geometryInfoGuarantee_def exampleParameters_def invalidGeoInfoBuffer_def
      replicate_two split: if_splits)

lemma sublist_middle: "sublist ys (xs @ ys @ zs)"
  by (rule sublist_appendI)

lemma score_names:
  "getEntityScoreVariable (Variable ''?text3'') (FixedEntity ''\"some other sentence\"'')
     = Inr (Variable ''?ql_score_text3_fixedEntity__34_some_32_other_32_sentence_34_'')"
  "getEntityScoreVariable (Variable ''?text2'') (EntityVariable (Variable ''?entityVar2''))
     = Inr (Variable ''?ql_score_text2_var_entityVar2'')"
  "getEntityScoreVariable (Variable []) (FixedEntity ''\"some other sentence\"'')
     = Inl OutOfRange"
  by (simp_all add: getEntityScoreVariable_def SCORE_VARIABLE_PREFIX_def Variable_ctor_def
      appendEscapedWord_def isalpha_def to_string_def decimal.simps digit_def Let_def
      substr1_def)

section \<open>Claims about TransitivePathBase\<close>

text \<open>
  C2. Whenever a TransitivePath operator is constructed with \<open>minDist = 0\<close> and
  both sides are fixed terms that differ, the constructed operator has
  \<open>minDist_ = 1\<close>.
\<close>

theorem ctor_lifts_minDist:
  assumes "\<not> isVariable leftSide" and "\<not> isVariable rightSide"
    and "value' leftSide \<noteq> value' rightSide"
  shows "\<exists>this. TransitivePathBase_ctor (Some q) (Some subtree) leftSide rightSide 0
                  maxDist activeGraphs = Inr this \<and> minDist' this = 1"
  using assms by (simp add: TransitivePathBase_ctor_def Let_def)

theorem ctor_lifts_minDist_witness:
  "\<not> isVariable (iriSide ''<x>'') \<and> \<not> isVariable (iriSide ''<y>'')
   \<and> value' (iriSide ''<x>'') \<noteq> value' (iriSide ''<y>'')
   \<and> (\<exists>this. TransitivePathBase_ctor (Some ()) (Some (Operation 5)) (iriSide ''<x>'')
                 (iriSide ''<y>'') 0 3 () = Inr this \<and> minDist' this = 1)"
  using ctor_lifts_minDist [of "iriSide ''<x>''" "iriSide ''<y>''" "()" "Operation 5" 3 "()"]
  by (simp add: iriSide_def isVariable_def)

text \<open>
  The operator of \<open>boundLeftPath\<close> is what the constructor returns when the left
  side already carries a subtree, as it does after \<open>bindLeftSide\<close>.
\<close>

lemma boundLeftPath_constructed:
  "TransitivePathBase_ctor (Some ()) (Some (Operation 5))
     (xSide\<lparr> treeAndCol' := Some (Operation 7, 0) \<rparr>) ySide 1 3 () = Inr boundLeftPath"
  by (simp add: TransitivePathBase_ctor_def boundLeftPath_def xSide_def ySide_def
      setVariableColumn_def)

text \<open>
  C3, as the spec states it: the size estimate is 1000 when a side is fixed and
  10000 times the estimate of the subtree otherwise. It fails for an operator with
  two variables whose left side is bound to a subtree: the estimate is the one of the
  bound subtree (7 here), not 10000 times the one of the subtree (5).
\<close>

theorem sizeEstimate_bound_side_counterexample:
  "isVariable (lhs' boundLeftPath) \<and> isVariable (rhs' boundLeftPath)
   \<and> getSizeEstimateBeforeLimit operationEstimate boundLeftPath = Inr 7
   \<and> getSizeEstimateBeforeLimit operationEstimate boundLeftPath
       \<noteq> Inr (10000 * operationEstimate (subtree' boundLeftPath))"
  by (simp add: getSizeEstimateBeforeLimit_def boundLeftPath_def xSide_def ySide_def
      isVariable_def operationEstimate_def)

text \<open>
  C3, amended: the size estimate is 1000 when a side is fixed. When both sides are
  variables, it is the estimate of the subtree bound to the left side if there is
  one, else the estimate of the subtree bound to the right side if there is one, and
  only when no side is bound it is 10000 times the estimate of the subtree, as a
  product of 64-bit unsigned integers. The correctness check never fails.
\<close>

theorem getSizeEstimateBeforeLimit_cases:
  "getSizeEstimateBeforeLimit getSizeEstimate this =
     Inr (if \<not> isVariable (lhs' this) \<or> \<not> isVariable (rhs' this) then 1000
          else case treeAndCol' (lhs' this) of
                 Some (tree, col) \<Rightarrow> getSizeEstimate tree
               | None \<Rightarrow>
                   (case treeAndCol' (rhs' this) of
                      Some (tree, col) \<Rightarrow> getSizeEstimate tree
                    | None \<Rightarrow> getSizeEstimate (subtree' this) * 10000))"
  by (simp add: getSizeEstimateBeforeLimit_def split: option.splits)

theorem getSizeEstimateBeforeLimit_cases_witness:
  "getSizeEstimateBeforeLimit operationEstimate boundLeftPath = Inr 7
   \<and> getSizeEstimateBeforeLimit operationEstimate
        (boundLeftPath\<lparr> lhs' := xSide \<rparr>) = Inr 50000
   \<and> getSizeEstimateBeforeLimit operationEstimate
        (boundLeftPath\<lparr> lhs' := iriSide ''<x>'' \<rparr>) = Inr 1000"
  using getSizeEstimateBeforeLimit_cases [of operationEstimate boundLeftPath]
    getSizeEstimateBeforeLimit_cases [of operationEstimate "boundLeftPath\<lparr> lhs' := xSide \<rparr>"]
    getSizeEstimateBeforeLimit_cases
      [of operationEstimate "boundLeftPath\<lparr> lhs' := iriSide ''<x>'' \<rparr>"]
  by (simp add: boundLeftPath_def xSide_def ySide_def iriSide_def isVariable_def
      operationEstimate_def)

section \<open>Claims about the invariance filter\<close>

text \<open>
  C9. A \<open>Bind\<close> is invariant exactly when its target is not among the referenced
  variables, a \<open>Values\<close> clause exactly when none of its variables is, and an
  \<open>Optional\<close> never is.
\<close>

theorem invariance_filter_classification:
  "(BasicGraphPatternsInvariantTo variables (GPBind bind) \<longleftrightarrow> target' bind \<notin> variables)
   \<and> (BasicGraphPatternsInvariantTo variables (GPValues vals)
        \<longleftrightarrow> set (variables' (inlineValues' vals)) \<inter> variables = {})
   \<and> \<not> BasicGraphPatternsInvariantTo variables (GPOptional optional)"
  by (auto simp: invariantTo_Bind_def invariantTo_Values_def invariantTo_Optional_def
      list_ex_iff)

theorem invariance_filter_classification_witness:
  "getVariablesPresentInBasicGraphPatterns exampleViewPatterns
     = {Variable ''?s'', Variable ''?m'', Variable ''?o''}
   \<and> BasicGraphPatternsInvariantTo (getVariablesPresentInBasicGraphPatterns exampleViewPatterns)
        (GPBind \<lparr> expression' = ''1 + 1'', target' = Variable ''?x'' \<rparr>)
   \<and> \<not> BasicGraphPatternsInvariantTo
          (getVariablesPresentInBasicGraphPatterns exampleViewPatterns)
          (GPBind \<lparr> expression' = ''1 + 1'', target' = Variable ''?m'' \<rparr>)
   \<and> BasicGraphPatternsInvariantTo (getVariablesPresentInBasicGraphPatterns exampleViewPatterns)
        (GPValues \<lparr> inlineValues' =
           \<lparr> variables' = [Variable ''?v''], values' = [[TCIri ''<a>'']] \<rparr> \<rparr>)
   \<and> \<not> BasicGraphPatternsInvariantTo
          (getVariablesPresentInBasicGraphPatterns exampleViewPatterns)
          (GPValues \<lparr> inlineValues' =
             \<lparr> variables' = [Variable ''?v'', Variable ''?o''],
               values' = [[TCIri ''<a>'', TCIri ''<b>'']] \<rparr> \<rparr>)
   \<and> \<not> BasicGraphPatternsInvariantTo
          (getVariablesPresentInBasicGraphPatterns exampleViewPatterns) (GPOptional [])"
proof -
  have v: "getVariablesPresentInBasicGraphPatterns exampleViewPatterns
     = {Variable ''?s'', Variable ''?m'', Variable ''?o''}"
    by (auto simp: exampleViewPatterns_def variablesOfTriple_def)
  from invariance_filter_classification
      [of "getVariablesPresentInBasicGraphPatterns exampleViewPatterns"
          "\<lparr> expression' = ''1 + 1'', target' = Variable ''?x'' \<rparr>"
          "\<lparr> inlineValues' = \<lparr> variables' = [Variable ''?v''],
                               values' = [[TCIri ''<a>'']] \<rparr> \<rparr>" "[]"]
    invariance_filter_classification
      [of "getVariablesPresentInBasicGraphPatterns exampleViewPatterns"
          "\<lparr> expression' = ''1 + 1'', target' = Variable ''?m'' \<rparr>"
          "\<lparr> inlineValues' = \<lparr> variables' = [Variable ''?v'', Variable ''?o''],
                               values' = [[TCIri ''<a>'', TCIri ''<b>'']] \<rparr> \<rparr>" "[]"]
  show ?thesis unfolding v by simp
qed

section \<open>Claims about DeltaTriplesCount\<close>

text \<open>
  C6. The JSON projection of a count has the keys \<open>inserted\<close>, \<open>deleted\<close> and
  \<open>total\<close>, the last one the sum of the two others; the difference of two counts is
  taken component by component on signed integers, so
  \<open>{10,5} - {3,2} = {7,3}\<close> and \<open>{3,2} - {10,5} = {-7,-3}\<close>.
\<close>

theorem deltaTriplesCount_json_and_difference:
  "to_json x = JObject [(''inserted'', JNumber (inserted x)),
                        (''deleted'', JNumber (deleted x)),
                        (''total'', JNumber (inserted x + deleted x))]
   \<and> inserted (subtractCounts a b) = inserted a - inserted b
   \<and> deleted (subtractCounts a b) = deleted a - deleted b
   \<and> subtractCounts \<lparr> inserted = 10, deleted = 5 \<rparr> \<lparr> inserted = 3, deleted = 2 \<rparr>
       = \<lparr> inserted = 7, deleted = 3 \<rparr>
   \<and> subtractCounts \<lparr> inserted = 3, deleted = 2 \<rparr> \<lparr> inserted = 10, deleted = 5 \<rparr>
       = \<lparr> inserted = - 7, deleted = - 3 \<rparr>"
  by (simp add: to_json_def subtractCounts_def)

theorem deltaTriplesCount_json_and_difference_witness:
  "to_json \<lparr> inserted = 5, deleted = 3 \<rparr>
     = JObject [(''inserted'', JNumber 5), (''deleted'', JNumber 3), (''total'', JNumber 8)]
   \<and> subtractCounts \<lparr> inserted = 10, deleted = 5 \<rparr> \<lparr> inserted = 3, deleted = 2 \<rparr>
       = \<lparr> inserted = 7, deleted = 3 \<rparr>
   \<and> subtractCounts \<lparr> inserted = 3, deleted = 2 \<rparr> \<lparr> inserted = 10, deleted = 5 \<rparr>
       = \<lparr> inserted = - 7, deleted = - 3 \<rparr>"
  using deltaTriplesCount_json_and_difference
      [of "\<lparr> inserted = 5, deleted = 3 \<rparr>" "\<lparr> inserted = 10, deleted = 5 \<rparr>"
          "\<lparr> inserted = 3, deleted = 2 \<rparr>"]
  by simp

section \<open>Claims about GeoVocabulary\<close>

text \<open>
  C1. The claim: for every input sequence each call returns the dense index of its
  word, and after \<open>finish\<close> the sidecar holds at position \<open>i\<close> the
  \<open>GeometryInfo\<close> of the \<open>i\<close>-th word, in whatever order the workers
  completed, so that \<open>getGeoInfo i\<close> is the reference computation on input
  \<open>i\<close>. The code misses it in two cases.
  \<^item> Without a worker thread (\<open>hardware_concurrency()\<close> is 0) the call returns
    index 0 and \<open>finish\<close> returns, nothing has drained the queue, the sidecar is
    the header alone, and \<open>getGeoInfo 0\<close> reads past the end of the file: on a
    buffer of zeros it answers \<open>None\<close> for a word that parses.
  \<^item> With workers, \<open>finishImpl\<close> stores \<open>done_processing\<close> without
    \<open>result_mutex\<close>: when the store and \<open>notify_all\<close> fall between the writer
    thread's test of the predicate and its sleep, the notification is lost, no event
    is possible any more, and \<open>finish\<close> waits in \<open>writer.join()\<close> for ever.
\<close>

theorem writer_misses_records_and_wake_up:
  "run noWorkerParameters (WordWriter_ctor noWorkerParameters) noWorkerSchedule
     = Some noWorkerWritten
   \<and> inputOf noWorkerSchedule = [(''POINT(1 2)'', False)]
   \<and> returned noWorkerWritten = [0]
   \<and> caller noWorkerWritten = Finished
   \<and> writerGeoInfoFile' noWorkerWritten
       = bytesOfVersion (GEOMETRY_INFO_VERSION noWorkerParameters)
   \<and> fromWktLiteral noWorkerParameters ''POINT(1 2)'' = Some (GeometryInfo [1, 2])
   \<and> getGeoInfo noWorkerParameters (writtenVocabulary noWorkerWritten) (\<lambda>i. 0) 0 = Inr None
   \<and> run exampleParameters (WordWriter_ctor exampleParameters) lostWakeUpSchedule
       = Some lostWakeUpState
   \<and> caller lostWakeUpState = JoiningWriter
   \<and> writer lostWakeUpState = WriterSleeping
   \<and> (\<forall>e. step exampleParameters lostWakeUpState e = None)"
proof -
  have c0: "WordWriter_ctor noWorkerParameters =
     \<lparr> underlyingWordWriter' = [], writerGeoInfoFile' = [2, 0, 0, 0],
       numInvalidGeometries' = 0, numInvalidPolygonArea' = 0, work_queue = [],
       work_queue_done = False, results = [], done_processing = False,
       workers = [], writer_next = 0, writer = WriterStarting,
       caller = Accepting, returned = [] \<rparr>"
    by (simp add: WordWriter_ctor_def noWorkerParameters_def exampleParameters_def
        File_write_def bytesOfVersion_def)
  have r0: "run noWorkerParameters (WordWriter_ctor noWorkerParameters) noWorkerSchedule
            = Some noWorkerWritten"
    unfolding c0
    by (simp add: noWorkerSchedule_def noWorkerWritten_def queue_capacity_def Let_def
        notify_def)
  have f0: "writerGeoInfoFile' noWorkerWritten
            = bytesOfVersion (GEOMETRY_INFO_VERSION noWorkerParameters)"
    by (simp add: noWorkerWritten_def noWorkerParameters_def exampleParameters_def
        bytesOfVersion_def)
  have g0: "getGeoInfo noWorkerParameters (writtenVocabulary noWorkerWritten) (\<lambda>i. 0) 0
            = Inr None"
    by (simp add: getGeoInfo_def size'_def writtenVocabulary_def noWorkerWritten_def
        noWorkerParameters_def exampleParameters_def File_read_into_def File_read_def
        geoInfoHeader_def invalidGeoInfoBuffer_def Let_def replicate_two upt_rec)
  have r1: "run exampleParameters (WordWriter_ctor exampleParameters) lostWakeUpSchedule
            = Some lostWakeUpState"
    unfolding example_ctor
    by (simp add: lostWakeUpSchedule_def lostWakeUpState_def exampleParameters_def
        Let_def process_def writeResult_def queue_capacity_def File_write_def notify_def)
  have stuck: "step exampleParameters lostWakeUpState e = None" for e
    by (cases e) (auto simp: lostWakeUpState_def nth_Cons split: nat.splits)
  show ?thesis
    using r0 f0 g0 r1 stuck
    by (simp add: noWorkerSchedule_def)
      (simp add: noWorkerWritten_def lostWakeUpState_def noWorkerParameters_def
        exampleParameters_def)
qed

text \<open>
  Apart from these two cases the writer keeps the order. With at least one worker
  thread, whatever the schedule of the threads, once \<open>finish\<close> is through every
  call has returned the dense index of its word (the \<open>i\<close>-th call returned \<open>i\<close>),
  the underlying vocabulary holds the words in the order of the input, the sidecar
  file is the reference file of the input (the header, then one record per word in
  index order), and \<open>getGeoInfo i\<close> is what \<open>GeometryInfo::fromWktLiteral\<close>
  computes from the \<open>i\<close>-th word, \<open>None\<close> when parsing fails. The order in
  which the workers complete is the order of the \<open>WorkerPublish\<close> events of the
  schedule, which is arbitrary. For every input there is a schedule that carries
  \<open>finish\<close> through (lemma \<open>finish_can_return\<close>).
\<close>

lemma finished_writer_in_index_order:
  assumes "0 < num_threads prm" and "geometryInfoGuarantee prm"
    and "run prm (WordWriter_ctor prm) schedule = Some s" and "caller s = Finished"
    and "geoInfoHeader + length (inputOf schedule) * geoInfoOffset prm < 2 ^ 64"
  shows "returned s = [0..<length (inputOf schedule)]
     \<and> literals' (writtenVocabulary s) = map fst (inputOf schedule)
     \<and> geoInfoFile' (writtenVocabulary s) = expectedFile prm (map fst (inputOf schedule))
     \<and> (\<forall>i<length (inputOf schedule).
           getGeoInfo prm (writtenVocabulary s) uninitialised (of_nat i)
           = Inr (fromWktLiteral prm (fst (inputOf schedule ! i))))"
proof -
  have inv: "writerInvariant prm s"
    using run_preserves[OF assms(1) inv_init assms(3)] .
  have inp: "underlyingWordWriter' s = inputOf schedule"
    using run_input[OF assms(3)] by (simp add: WordWriter_ctor_def)
  note fin = finished_file[OF inv assms(4)]
  have lit: "literals' (writtenVocabulary s) = map fst (inputOf schedule)"
    by (simp add: writtenVocabulary_def inp)
  have fl: "geoInfoFile' (writtenVocabulary s) = expectedFile prm (literals' (writtenVocabulary s))"
    using fin(1) by (simp add: writtenVocabulary_def)
  have "getGeoInfo prm (writtenVocabulary s) uninitialised (of_nat i)
           = Inr (fromWktLiteral prm (fst (inputOf schedule ! i)))"
    if "i < length (inputOf schedule)" for i
    using getGeoInfo_expectedFile[OF assms(2) fl, of i uninitialised] that assms(5)
    by (simp add: lit)
  then show ?thesis using fin(2) lit fl by (simp add: inp)
qed

lemma example_run_in_index_order:
  "0 < num_threads exampleParameters \<and> geometryInfoGuarantee exampleParameters
   \<and> run exampleParameters (WordWriter_ctor exampleParameters) exampleSchedule
       = Some exampleWritten
   \<and> caller exampleWritten = Finished
   \<and> returned exampleWritten = [0, 1, 2]
   \<and> getGeoInfo exampleParameters (writtenVocabulary exampleWritten) (\<lambda>i. 7) 0
       = Inr (Some (GeometryInfo [1, 2]))
   \<and> getGeoInfo exampleParameters (writtenVocabulary exampleWritten) (\<lambda>i. 7) 1 = Inr None
   \<and> getGeoInfo exampleParameters (writtenVocabulary exampleWritten) (\<lambda>i. 7) 2
       = Inr (Some (GeometryInfo [0, 3]))"
proof -
  have n: "0 < num_threads exampleParameters" by (simp add: exampleParameters_def)
  have c: "caller exampleWritten = Finished" by (simp add: exampleWritten_def)
  have inp: "inputOf exampleSchedule
     = [(''POINT(1 2)'', False), (''garbage'', False), (''LINESTRING(0 0, 3 3)'', True)]"
    by (simp add: exampleSchedule_def)
  have fit: "geoInfoHeader + length (inputOf exampleSchedule) * geoInfoOffset exampleParameters
             < 2 ^ 64"
    by (simp add: inp geoInfoHeader_def exampleParameters_def)
  note th = finished_writer_in_index_order[OF n exampleParameters_guarantee
      exampleSchedule_runs c fit, of "\<lambda>i. 7"]
  from th have r: "returned exampleWritten = [0, 1, 2]"
    by (simp add: inp upt_rec)
  from th have g: "\<And>i. i < 3 \<Longrightarrow>
      getGeoInfo exampleParameters (writtenVocabulary exampleWritten) (\<lambda>i. 7) (of_nat i)
      = Inr (fromWktLiteral exampleParameters (fst (inputOf exampleSchedule ! i)))"
    by (simp add: inp)
  from g[of 0] g[of 1] g[of 2] show ?thesis
    using n exampleParameters_guarantee exampleSchedule_runs c r
    by (simp add: inp exampleParameters_def)
qed

text \<open>
  C7. For an index below the size of the vocabulary, \<open>getGeoInfo\<close> depends only
  on the record of \<open>geoInfoOffset\<close> bytes at the offset
  \<open>geoInfoHeader + index * geoInfoOffset\<close> of the file: \<open>None\<close> when the record
  is all zero, the bit cast of the record otherwise, whatever the buffer held before
  the read. The hypotheses are that the offset fits 64 bits, so that it is the one of
  plain arithmetic, and that the file holds the whole record.
\<close>

theorem getGeoInfo_reads_record:
  assumes "index < size' voc" and "geoInfoHeader + unat index * geoInfoOffset prm < 2 ^ 64"
    and "geoInfoHeader + (unat index + 1) * geoInfoOffset prm \<le> length (geoInfoFile' voc)"
  shows "getGeoInfo prm voc uninitialised index =
     Inr (if recordAt prm (geoInfoFile' voc) (unat index) = replicate (geoInfoOffset prm) 0
          then None
          else Some (bit_cast (recordAt prm (geoInfoFile' voc) (unat index))))"
  using assms by (rule getGeoInfo_record)

theorem getGeoInfo_reads_record_witness:
  "(1 :: 64 word) < size' (writtenVocabulary exampleWritten)
   \<and> geoInfoHeader + unat (1 :: 64 word) * geoInfoOffset exampleParameters < 2 ^ 64
   \<and> geoInfoHeader + (unat (1 :: 64 word) + 1) * geoInfoOffset exampleParameters
       \<le> length (geoInfoFile' (writtenVocabulary exampleWritten))
   \<and> recordAt exampleParameters (geoInfoFile' (writtenVocabulary exampleWritten)) 1 = [0, 0]
   \<and> recordAt exampleParameters (geoInfoFile' (writtenVocabulary exampleWritten)) 2 = [0, 3]
   \<and> getGeoInfo exampleParameters (writtenVocabulary exampleWritten) (\<lambda>i. 7) 1 = Inr None
   \<and> getGeoInfo exampleParameters (writtenVocabulary exampleWritten) (\<lambda>i. 7) 2
       = Inr (Some (GeometryInfo [0, 3]))"
proof -
  have a: "(1 :: 64 word) < size' (writtenVocabulary exampleWritten)"
    "(2 :: 64 word) < size' (writtenVocabulary exampleWritten)"
    by (simp_all add: size'_def writtenVocabulary_def exampleWritten_def)
  have b: "geoInfoHeader + unat (1 :: 64 word) * geoInfoOffset exampleParameters < 2 ^ 64"
    "geoInfoHeader + unat (2 :: 64 word) * geoInfoOffset exampleParameters < 2 ^ 64"
    by (simp_all add: geoInfoHeader_def exampleParameters_def)
  have c: "geoInfoHeader + (unat (1 :: 64 word) + 1) * geoInfoOffset exampleParameters
             \<le> length (geoInfoFile' (writtenVocabulary exampleWritten))"
    "geoInfoHeader + (unat (2 :: 64 word) + 1) * geoInfoOffset exampleParameters
             \<le> length (geoInfoFile' (writtenVocabulary exampleWritten))"
    by (simp_all add: geoInfoHeader_def exampleParameters_def writtenVocabulary_def
        exampleWritten_def)
  have r: "recordAt exampleParameters (geoInfoFile' (writtenVocabulary exampleWritten)) 1 = [0, 0]"
    "recordAt exampleParameters (geoInfoFile' (writtenVocabulary exampleWritten)) 2 = [0, 3]"
    by (simp_all add: recordAt_def writtenVocabulary_def exampleWritten_def geoInfoHeader_def
        exampleParameters_def replicate_two)
  have z: "replicate (geoInfoOffset exampleParameters) (0 :: 8 word) = [0, 0]"
    by (simp add: exampleParameters_def replicate_two)
  from getGeoInfo_reads_record[OF a(1) b(1) c(1), of "\<lambda>i. 7"]
    getGeoInfo_reads_record[OF a(2) b(2) c(2), of "\<lambda>i. 7"]
  show ?thesis using a(1) b(1) c(1) r by (simp add: z bit_cast_def)
qed

text \<open>
  C10. For an index that is not below the size of the vocabulary, \<open>getGeoInfo\<close>
  fails its contract check, whatever the file and the buffer hold; for an index below
  the size the check passes and a result is returned.
\<close>

theorem getGeoInfo_contract_check:
  "(size' voc \<le> index \<longrightarrow>
      getGeoInfo prm voc uninitialised index = Inl ContractCheckFailed)
   \<and> (index < size' voc \<longrightarrow> (\<exists>info. getGeoInfo prm voc uninitialised index = Inr info))"
  by (auto simp: getGeoInfo_def Let_def)

theorem getGeoInfo_contract_check_witness:
  "size' (writtenVocabulary exampleWritten) \<le> 3
   \<and> getGeoInfo exampleParameters (writtenVocabulary exampleWritten) (\<lambda>i. 7) 3
       = Inl ContractCheckFailed
   \<and> (2 :: 64 word) < size' (writtenVocabulary exampleWritten)
   \<and> (\<exists>info. getGeoInfo exampleParameters (writtenVocabulary exampleWritten) (\<lambda>i. 7) 2
               = Inr info)"
proof -
  have a: "size' (writtenVocabulary exampleWritten) \<le> 3"
    "(2 :: 64 word) < size' (writtenVocabulary exampleWritten)"
    by (simp_all add: size'_def writtenVocabulary_def exampleWritten_def)
  from getGeoInfo_contract_check
      [of "writtenVocabulary exampleWritten" 3 exampleParameters "\<lambda>i. 7"]
    getGeoInfo_contract_check
      [of "writtenVocabulary exampleWritten" 2 exampleParameters "\<lambda>i. 7"]
  show ?thesis using a by simp
qed

text \<open>
  C8. \<open>open\<close> reads the version word at the start of the file. When it differs
  from \<open>GEOMETRY_INFO_VERSION\<close>, \<open>open\<close> throws a runtime error whose message
  holds the version of the file, the required version and the instruction to rebuild
  the index; when the two agree, \<open>open\<close> returns the vocabulary.
\<close>

theorem open_checks_version:
  "GeoVocabulary_open prm underlying files filename =
     (if storedVersion (files (getGeoInfoFilename filename)) \<noteq> GEOMETRY_INFO_VERSION prm
      then Inl (RuntimeError (versionMismatchMessage filename
                  (storedVersion (files (getGeoInfoFilename filename)))
                  (GEOMETRY_INFO_VERSION prm)))
      else Inr \<lparr> literals' = underlying filename,
                 geoInfoFile' = files (getGeoInfoFilename filename) \<rparr>)
   \<and> sublist (decimal (unat versionOfFile))
        (versionMismatchMessage filename versionOfFile required)
   \<and> sublist (decimal (unat required))
        (versionMismatchMessage filename versionOfFile required)
   \<and> sublist ''Please rebuild your index.''
        (versionMismatchMessage filename versionOfFile required)"
proof (intro conjI)
  show "GeoVocabulary_open prm underlying files filename =
     (if storedVersion (files (getGeoInfoFilename filename)) \<noteq> GEOMETRY_INFO_VERSION prm
      then Inl (RuntimeError (versionMismatchMessage filename
                  (storedVersion (files (getGeoInfoFilename filename)))
                  (GEOMETRY_INFO_VERSION prm)))
      else Inr \<lparr> literals' = underlying filename,
                 geoInfoFile' = files (getGeoInfoFilename filename) \<rparr>)"
    by (simp add: GeoVocabulary_open_def storedVersion_def Let_def)
  let ?m = "versionMismatchMessage filename versionOfFile required"
  have "?m = (''The geometry info version of '' @ getGeoInfoFilename filename @ '' is '')
             @ decimal (unat versionOfFile)
             @ ('', which is incompatible with version '' @ decimal (unat required)
                @ '' as required by this version of QLever. Please rebuild your index.'')"
    by (simp add: versionMismatchMessage_def)
  then show "sublist (decimal (unat versionOfFile)) ?m"
    by (simp only: sublist_middle)
  have "?m = (''The geometry info version of '' @ getGeoInfoFilename filename @ '' is ''
              @ decimal (unat versionOfFile) @ '', which is incompatible with version '')
             @ decimal (unat required)
             @ '' as required by this version of QLever. Please rebuild your index.''"
    by (simp add: versionMismatchMessage_def)
  then show "sublist (decimal (unat required)) ?m"
    by (simp only: sublist_middle)
  have "?m = (''The geometry info version of '' @ getGeoInfoFilename filename @ '' is ''
              @ decimal (unat versionOfFile) @ '', which is incompatible with version ''
              @ decimal (unat required) @ '' as required by this version of QLever. '')
             @ ''Please rebuild your index.'' @ []"
    by (simp add: versionMismatchMessage_def)
  then show "sublist ''Please rebuild your index.'' ?m"
    by (simp only: sublist_middle)
qed

theorem open_checks_version_witness:
  "GeoVocabulary_open exampleParameters exampleWords exampleFiles ''old''
     = Inl (RuntimeError (''The geometry info version of old.geoinfo is 1, which is ''
              @ ''incompatible with version 2 as required by this version of QLever. ''
              @ ''Please rebuild your index.''))
   \<and> GeoVocabulary_open exampleParameters exampleWords exampleFiles ''vocab''
     = Inr (writtenVocabulary exampleWritten)
   \<and> sublist ''1'' (versionMismatchMessage ''old'' 1 2)
   \<and> sublist ''2'' (versionMismatchMessage ''old'' 1 2)"
proof -
  have v: "storedVersion [1, 0, 0, 0, 1, 2] = 1"
    "storedVersion [2, 0, 0, 0, 1, 2, 0, 0, 0, 3] = 2"
    by (simp_all add: storedVersion_def File_read_def geoInfoHeader_def)
  have d: "decimal 1 = ''1''" "decimal (Suc 0) = ''1''" "decimal 2 = ''2''"
    by (simp_all add: decimal.simps digit_def)
  from open_checks_version[of exampleParameters exampleWords exampleFiles "''old''" 1 2]
    open_checks_version[of exampleParameters exampleWords exampleFiles "''vocab''" 1 2]
  show ?thesis
    by (simp add: v d exampleParameters_def versionMismatchMessage_def getGeoInfoFilename_def
        geoInfoSuffix_def writtenVocabulary_def exampleWritten_def exampleWords_def
        exampleFiles_def)
qed

section \<open>Claims about TextIndexScanForEntity\<close>

text \<open>
  C4. With a fixed entity of the knowledge graph the scan is constructed and its
  result width is 2; with a fixed entity that is not in the knowledge graph the
  construction fails with an error whose message names the entity and
  \<open>ql:contains-entity\<close>; with an entity variable the construction never fails.
\<close>

theorem fixed_entity_scan:
  "(e \<in> set knowledgeGraph \<longrightarrow>
      (\<exists>scan. TextIndexScanForEntity_ctor knowledgeGraph textVar (FixedEntity e) word = Inr scan
              \<and> getResultWidth scan = 2))
   \<and> (e \<notin> set knowledgeGraph \<longrightarrow>
        TextIndexScanForEntity_ctor knowledgeGraph textVar (FixedEntity e) word
          = Inl (RuntimeError (entityNotInGraphMessage e))
        \<and> sublist e (entityNotInGraphMessage e)
        \<and> sublist ''ql:contains-entity'' (entityNotInGraphMessage e))
   \<and> (\<exists>scan. TextIndexScanForEntity_ctor knowledgeGraph textVar (EntityVariable v) word
               = Inr scan \<and> getResultWidth scan = 3)"
proof -
  have "entityNotInGraphMessage e = ''The entity '' @ e
        @ ('' is not part of the underlying knowledge graph and can ''
           @ ''therefore not be used as the object of ql:contains-entity'')"
    by (simp add: entityNotInGraphMessage_def)
  then have a: "sublist e (entityNotInGraphMessage e)"
    by (simp only: sublist_middle)
  have "entityNotInGraphMessage e = (''The entity '' @ e
        @ '' is not part of the underlying knowledge graph and can ''
        @ ''therefore not be used as the object of '') @ ''ql:contains-entity'' @ []"
    by (simp add: entityNotInGraphMessage_def)
  then have b: "sublist ''ql:contains-entity'' (entityNotInGraphMessage e)"
    by (simp only: sublist_middle)
  show ?thesis using a b
    by (simp add: TextIndexScanForEntity_ctor_def getResultWidth_def)
qed

theorem fixed_entity_scan_witness:
  "''\"some other sentence\"'' \<in> set testGraph
   \<and> (\<exists>scan. TextIndexScanForEntity_ctor testGraph (Variable ''?text3'')
                (FixedEntity ''\"some other sentence\"'') ''sentence'' = Inr scan
              \<and> getResultWidth scan = 2)
   \<and> ''\"non existent entity\"'' \<notin> set testGraph
   \<and> TextIndexScanForEntity_ctor testGraph (Variable ''?text'')
        (FixedEntity ''\"non existent entity\"'') ''test*''
       = Inl (RuntimeError (''The entity \"non existent entity\" is not part of the ''
                @ ''underlying knowledge graph and can therefore not be used as the ''
                @ ''object of ql:contains-entity''))
   \<and> (\<exists>scan. TextIndexScanForEntity_ctor testGraph (Variable ''?text'')
                (EntityVariable (Variable ''?entityVar'')) ''test*'' = Inr scan
              \<and> getResultWidth scan = 3)"
  using fixed_entity_scan[of "''\"some other sentence\"''" testGraph "Variable ''?text3''"
      "''sentence''" "Variable ''?entityVar''"]
    fixed_entity_scan[of "''\"non existent entity\"''" testGraph "Variable ''?text''"
      "''test*''" "Variable ''?entityVar''"]
  by (simp add: testGraph_def entityNotInGraphMessage_def)

text \<open>
  C5. Two scans have the same cache key exactly when they have the same word and
  the same entity designation (the same fixed entity, or an entity variable both).
  So the names of the text variable and of the entity variable do not change the
  key, and scans that differ in the word, in its prefix status or in the fixed
  entity have different keys.
\<close>

theorem cache_key_law:
  "(getCacheKeyImpl scan1 = getCacheKeyImpl scan2
      \<longleftrightarrow> word' scan1 = word' scan2 \<and> fixedEntity scan1 = fixedEntity scan2)
   \<and> (isPrefix (word' scan1) \<noteq> isPrefix (word' scan2) \<longrightarrow>
        getCacheKeyImpl scan1 \<noteq> getCacheKeyImpl scan2)
   \<and> getCacheKeyImpl (scan1\<lparr> textRecordVar' := textVar \<rparr>) = getCacheKeyImpl scan1
   \<and> getCacheKeyImpl \<lparr> textRecordVar' = textVar1, entity' = EntityVariable entityVar1,
                        word' = word \<rparr>
     = getCacheKeyImpl \<lparr> textRecordVar' = textVar2, entity' = EntityVariable entityVar2,
                          word' = word \<rparr>"
  by (auto simp: getCacheKeyImpl_def fixedEntity_def)

theorem cache_key_law_witness:
  "getCacheKeyImpl \<lparr> textRecordVar' = Variable ''?text'',
                     entity' = EntityVariable (Variable ''?entityVar''), word' = ''test*'' \<rparr>
     = getCacheKeyImpl \<lparr> textRecordVar' = Variable ''?text2'',
                          entity' = EntityVariable (Variable ''?entityVar2''),
                          word' = ''test*'' \<rparr>
   \<and> getCacheKeyImpl \<lparr> textRecordVar' = Variable ''?text'',
                        entity' = EntityVariable (Variable ''?entityVar''), word' = ''test*'' \<rparr>
     \<noteq> getCacheKeyImpl \<lparr> textRecordVar' = Variable ''?text3'',
                          entity' = EntityVariable (Variable ''?entityVar''),
                          word' = ''test'' \<rparr>
   \<and> getCacheKeyImpl \<lparr> textRecordVar' = Variable ''?text3'',
                        entity' = EntityVariable (Variable ''?entityVar''), word' = ''sentence'' \<rparr>
     \<noteq> getCacheKeyImpl \<lparr> textRecordVar' = Variable ''?text3'',
                          entity' = FixedEntity ''\"some other sentence\"'',
                          word' = ''sentence'' \<rparr>
   \<and> getCacheKeyImpl \<lparr> textRecordVar' = Variable ''?text3'',
                        entity' = FixedEntity ''\"some other sentence\"'',
                        word' = ''sentence'' \<rparr>
     \<noteq> getCacheKeyImpl \<lparr> textRecordVar' = Variable ''?text7'',
                          entity' = FixedEntity ''\"he failed the test\"'',
                          word' = ''sentence'' \<rparr>"
  using cache_key_law
      [of "\<lparr> textRecordVar' = Variable ''?text'',
             entity' = EntityVariable (Variable ''?entityVar''), word' = ''test*'' \<rparr>"
          "\<lparr> textRecordVar' = Variable ''?text3'',
             entity' = EntityVariable (Variable ''?entityVar''), word' = ''test'' \<rparr>"]
  by (simp add: getCacheKeyImpl_def fixedEntity_def isPrefix_def)

end
